theory Spec2Isabelle
  imports Main "HOL-Library.Word"
begin

section \<open>Buffers\<close>

text \<open>
  A Node \<open>Buffer\<close> is a sequence of bytes. The only buffers of \<open>noise-state.ts\<close> that are
  written in place are the two nonces, each allocated by its own \<open>Buffer.alloc(12)\<close> and
  reachable through one field only, so a buffer is modelled by its value.
\<close>

type_synonym byte = "8 word"
type_synonym bytes = "byte list"

text \<open>
  What the class can throw: \<open>new Error(msg)\<close> with the message of the source; the
  \<open>TypeError\<close> of JavaScript when a field that was never assigned is used as a buffer;
  the \<open>RangeError\<close> of the integer accessors of \<open>Buffer\<close>; and whatever \<open>ecdh\<close> and
  \<open>ccpDecrypt\<close> throw when they reject their input.
\<close>

datatype error = Error string | TypeError | RangeError | EcdhError | DecryptError

text \<open>\<open>Buffer.alloc(n)\<close>: n zero bytes.\<close>

definition alloc :: "nat \<Rightarrow> bytes" where
  "alloc n = replicate n 0"

text \<open>\<open>buf.slice(a, b)\<close> for \<open>0 \<le> a \<le> b\<close>; both ends are clamped to the length.\<close>

definition buffer_slice :: "nat \<Rightarrow> nat \<Rightarrow> bytes \<Rightarrow> bytes" where
  "buffer_slice a b buf = take (b - a) (drop a buf)"

text \<open>\<open>Buffer.from(str)\<close> on an ASCII string.\<close>

definition from_string :: "string \<Rightarrow> bytes" where
  "from_string str = map of_char str"

text \<open>
  The 16-bit accessors. A read or write that does not fit in the buffer, and a written value
  above 65535, throw a \<open>RangeError\<close>. The value is a JavaScript number, here a natural.
\<close>

definition readUInt16LE :: "bytes \<Rightarrow> nat \<Rightarrow> error + nat" where
  "readUInt16LE buf off =
     (if length buf < off + 2 then Inl RangeError
      else Inr (unat (buf ! off) + 256 * unat (buf ! (off + 1))))"

definition writeUInt16LE :: "nat \<Rightarrow> nat \<Rightarrow> bytes \<Rightarrow> error + bytes" where
  "writeUInt16LE v off buf =
     (if 65535 < v \<or> length buf < off + 2 then Inl RangeError
      else Inr (buf[off := of_nat (v mod 256), off + 1 := of_nat (v div 256)]))"

definition readUInt16BE :: "bytes \<Rightarrow> nat \<Rightarrow> error + nat" where
  "readUInt16BE buf off =
     (if length buf < off + 2 then Inl RangeError
      else Inr (256 * unat (buf ! off) + unat (buf ! (off + 1))))"

definition writeUInt16BE :: "nat \<Rightarrow> nat \<Rightarrow> bytes \<Rightarrow> error + bytes" where
  "writeUInt16BE v off buf =
     (if 65535 < v \<or> length buf < off + 2 then Inl RangeError
      else Inr (buf[off := of_nat (v div 256), off + 1 := of_nat (v mod 256)]))"

section \<open>The imported primitives\<close>

text \<open>
  \<open>sha256\<close>, \<open>hkdf\<close>, \<open>ecdh\<close>, \<open>getPublicKey\<close>, \<open>ccpEncrypt\<close> and \<open>ccpDecrypt\<close> are imported
  from \<open>@lntools/crypto\<close>. They are parameters of the model. Two of them can fail, and a
  failure is an exception: \<open>ecdh\<close> on a public key that is not a point of the curve, and
  \<open>ccpDecrypt\<close> on a ciphertext that it does not authenticate.
\<close>

record crypto =
  sha256 :: "bytes \<Rightarrow> bytes"
  hkdf :: "bytes \<Rightarrow> bytes \<Rightarrow> bytes"
  ecdh :: "bytes \<Rightarrow> bytes \<Rightarrow> bytes option"
  getPublicKey :: "bytes \<Rightarrow> bytes"
  ccpEncrypt :: "bytes \<Rightarrow> bytes \<Rightarrow> bytes \<Rightarrow> bytes \<Rightarrow> bytes"
  ccpDecrypt :: "bytes \<Rightarrow> bytes \<Rightarrow> bytes \<Rightarrow> bytes \<Rightarrow> bytes option"

section \<open>The class \<open>NoiseState\<close>\<close>

text \<open>
  The constructor assigns \<open>ls\<close>, \<open>lpk\<close>, \<open>es\<close> and \<open>epk\<close>; every other field is unassigned
  (\<open>None\<close>) until a method writes it. The logger only prints and is left out.
\<close>

record NoiseState =
  ls :: bytes
  lpk :: bytes
  es :: bytes
  epk :: bytes
  rpk :: "bytes option"
  repk :: "bytes option"
  h :: "bytes option"
  ck :: "bytes option"
  rk :: "bytes option"
  sk :: "bytes option"
  sn :: "bytes option"
  rn :: "bytes option"
  tempK1 :: "bytes option"
  tempK2 :: "bytes option"
  tempK3 :: "bytes option"

text \<open>A method returns a value or throws, and leaves the object in a state either way.\<close>

type_synonym 'a result = "(error + 'a) \<times> NoiseState"

text \<open>
  The fields \<open>protocolName\<close> and \<open>prologue\<close> are initialised with these values and no
  method writes them.
\<close>

definition protocolName :: bytes where
  "protocolName = from_string ''Noise_XK_secp256k1_ChaChaPoly_SHA256''"

definition prologue :: bytes where
  "prologue = from_string ''lightning''"

definition new_NoiseState :: "crypto \<Rightarrow> bytes \<Rightarrow> bytes \<Rightarrow> NoiseState" where
  "new_NoiseState cr ls0 es0 =
     \<lparr> ls = ls0, lpk = getPublicKey cr ls0, es = es0, epk = getPublicKey cr es0,
       rpk = None, repk = None, h = None, ck = None, rk = None, sk = None,
       sn = None, rn = None, tempK1 = None, tempK2 = None, tempK3 = None \<rparr>"

text \<open>\<open>_initialize(pubkey)\<close>.\<close>

definition initialize :: "crypto \<Rightarrow> bytes \<Rightarrow> NoiseState \<Rightarrow> NoiseState" where
  "initialize cr pubkey s0 =
     (let h1 = sha256 cr protocolName;
          s1 = s0\<lparr>h := Some h1\<rparr>;
          s2 = s1\<lparr>ck := h s1\<rparr>;
          h3 = sha256 cr (h1 @ prologue);
          h4 = sha256 cr (h3 @ pubkey)
      in s2\<lparr>h := Some h4\<rparr>)"

subsection \<open>The initiator\<close>

definition initiatorAct1 :: "crypto \<Rightarrow> bytes \<Rightarrow> NoiseState \<Rightarrow> bytes result" where
  "initiatorAct1 cr rpk0 s0 =
     (let s1 = initialize cr rpk0 (s0\<lparr>rpk := Some rpk0\<rparr>) in
      case h s1 of None \<Rightarrow> (Inl TypeError, s1) | Some h1 \<Rightarrow> (
      let h2 = sha256 cr (h1 @ epk s1);
          s2 = s1\<lparr>h := Some h2\<rparr> in
      case ecdh cr rpk0 (es s2) of None \<Rightarrow> (Inl EcdhError, s2) | Some ss \<Rightarrow> (
      case ck s2 of None \<Rightarrow> (Inl TypeError, s2) | Some ck2 \<Rightarrow> (
      let t1 = hkdf cr ck2 ss;
          s3 = s2\<lparr>ck := Some (take 32 t1), tempK1 := Some (drop 32 t1)\<rparr>;
          c = ccpEncrypt cr (drop 32 t1) (alloc 12) h2 (alloc 0);
          s4 = s3\<lparr>h := Some (sha256 cr (h2 @ c))\<rparr>
      in (Inr (alloc 1 @ epk s4 @ c), s4)))))"

definition initiatorAct2 :: "crypto \<Rightarrow> bytes \<Rightarrow> NoiseState \<Rightarrow> unit result" where
  "initiatorAct2 cr m s0 =
     (if length m \<noteq> 50 then (Inl (Error ''ACT2_READ_FAILED''), s0) else
      let v = m ! 0;
          re = buffer_slice 1 34 m;
          c = drop 34 m;
          s1 = s0\<lparr>repk := Some re\<rparr> in
      if v \<noteq> 0 then (Inl (Error ''ACT2_BAD_VERSION''), s1) else
      case h s1 of None \<Rightarrow> (Inl TypeError, s1) | Some h1 \<Rightarrow> (
      let h2 = sha256 cr (h1 @ re);
          s2 = s1\<lparr>h := Some h2\<rparr> in
      case ecdh cr re (es s2) of None \<Rightarrow> (Inl EcdhError, s2) | Some ss \<Rightarrow> (
      case ck s2 of None \<Rightarrow> (Inl TypeError, s2) | Some ck2 \<Rightarrow> (
      let t2 = hkdf cr ck2 ss;
          s3 = s2\<lparr>ck := Some (take 32 t2), tempK2 := Some (drop 32 t2)\<rparr> in
      case ccpDecrypt cr (drop 32 t2) (alloc 12) h2 c of
        None \<Rightarrow> (Inl DecryptError, s3)
      | Some p \<Rightarrow> (Inr (), s3\<lparr>h := Some (sha256 cr (h2 @ c))\<rparr>)))))"

definition initiatorAct3 :: "crypto \<Rightarrow> NoiseState \<Rightarrow> bytes result" where
  "initiatorAct3 cr s0 =
     (case tempK2 s0 of None \<Rightarrow> (Inl TypeError, s0) | Some k2 \<Rightarrow> (
      case h s0 of None \<Rightarrow> (Inl TypeError, s0) | Some h0 \<Rightarrow> (
      let c = ccpEncrypt cr k2 [0, 0, 0, 0, 1, 0, 0, 0, 0, 0, 0, 0] h0 (lpk s0);
          h1 = sha256 cr (h0 @ c);
          s1 = s0\<lparr>h := Some h1\<rparr> in
      case repk s1 of None \<Rightarrow> (Inl TypeError, s1) | Some re \<Rightarrow> (
      case ecdh cr re (ls s1) of None \<Rightarrow> (Inl EcdhError, s1) | Some ss \<Rightarrow> (
      case ck s1 of None \<Rightarrow> (Inl TypeError, s1) | Some ck1 \<Rightarrow> (
      let t3 = hkdf cr ck1 ss;
          s2 = s1\<lparr>ck := Some (take 32 t3), tempK3 := Some (drop 32 t3)\<rparr>;
          t = ccpEncrypt cr (drop 32 t3) (alloc 12) h1 (alloc 0);
          keys = hkdf cr (take 32 t3) (alloc 0);
          s3 = s2\<lparr>rk := Some (drop 32 keys)\<rparr>;
          s4 = s3\<lparr>sk := Some (take 32 keys)\<rparr>;
          s5 = s4\<lparr>sn := Some (alloc 12)\<rparr>;
          s6 = s5\<lparr>rn := Some (alloc 12)\<rparr>
      in (Inr (alloc 1 @ c @ t), s6)))))))"

subsection \<open>The responder\<close>

definition receiveAct1 :: "crypto \<Rightarrow> bytes \<Rightarrow> NoiseState \<Rightarrow> unit result" where
  "receiveAct1 cr m s0 =
     (let s1 = initialize cr (lpk s0) s0 in
      if length m \<noteq> 50 then (Inl (Error ''ACT1_READ_FAILED''), s1) else
      let v = m ! 0;
          re = buffer_slice 1 34 m;
          c = drop 34 m;
          s2 = s1\<lparr>repk := Some re\<rparr> in
      if v \<noteq> 0 then (Inl (Error ''ACT1_BAD_VERSION''), s2) else
      case h s2 of None \<Rightarrow> (Inl TypeError, s2) | Some h2 \<Rightarrow> (
      let h3 = sha256 cr (h2 @ re);
          s3 = s2\<lparr>h := Some h3\<rparr> in
      case ecdh cr re (ls s3) of None \<Rightarrow> (Inl EcdhError, s3) | Some ss \<Rightarrow> (
      case ck s3 of None \<Rightarrow> (Inl TypeError, s3) | Some ck3 \<Rightarrow> (
      let t1 = hkdf cr ck3 ss;
          s4 = s3\<lparr>ck := Some (take 32 t1), tempK1 := Some (drop 32 t1)\<rparr> in
      case ccpDecrypt cr (drop 32 t1) (alloc 12) h3 c of
        None \<Rightarrow> (Inl DecryptError, s4)
      | Some p \<Rightarrow> (Inr (), s4\<lparr>h := Some (sha256 cr (h3 @ c))\<rparr>)))))"

definition recieveAct2 :: "crypto \<Rightarrow> NoiseState \<Rightarrow> bytes result" where
  "recieveAct2 cr s0 =
     (case h s0 of None \<Rightarrow> (Inl TypeError, s0) | Some h0 \<Rightarrow> (
      let h1 = sha256 cr (h0 @ epk s0);
          s1 = s0\<lparr>h := Some h1\<rparr> in
      case repk s1 of None \<Rightarrow> (Inl TypeError, s1) | Some re \<Rightarrow> (
      case ecdh cr re (es s1) of None \<Rightarrow> (Inl EcdhError, s1) | Some ss \<Rightarrow> (
      case ck s1 of None \<Rightarrow> (Inl TypeError, s1) | Some ck1 \<Rightarrow> (
      let t2 = hkdf cr ck1 ss;
          s2 = s1\<lparr>ck := Some (take 32 t2), tempK2 := Some (drop 32 t2)\<rparr>;
          c = ccpEncrypt cr (drop 32 t2) (alloc 12) h1 (alloc 0);
          s3 = s2\<lparr>h := Some (sha256 cr (h1 @ c))\<rparr>
      in (Inr (alloc 1 @ epk s3 @ c), s3))))))"

definition receiveAct3 :: "crypto \<Rightarrow> bytes \<Rightarrow> NoiseState \<Rightarrow> unit result" where
  "receiveAct3 cr m s0 =
     (if length m \<noteq> 66 then (Inl (Error ''ACT3_READ_FAILED''), s0) else
      let v = m ! 0;
          c = buffer_slice 1 50 m;
          t = drop 50 m in
      if v \<noteq> 0 then (Inl (Error ''ACT3_BAD_VERSION''), s0) else
      case tempK2 s0 of None \<Rightarrow> (Inl TypeError, s0) | Some k2 \<Rightarrow> (
      case h s0 of None \<Rightarrow> (Inl TypeError, s0) | Some h0 \<Rightarrow> (
      case ccpDecrypt cr k2 [0, 0, 0, 0, 1, 0, 0, 0, 0, 0, 0, 0] h0 c of
        None \<Rightarrow> (Inl DecryptError, s0)
      | Some rs \<Rightarrow> (
      let s1 = s0\<lparr>rpk := Some rs\<rparr>;
          h1 = sha256 cr (h0 @ c);
          s2 = s1\<lparr>h := Some h1\<rparr> in
      case ecdh cr rs (es s2) of None \<Rightarrow> (Inl EcdhError, s2) | Some ss \<Rightarrow> (
      case ck s2 of None \<Rightarrow> (Inl TypeError, s2) | Some ck2 \<Rightarrow> (
      let t3 = hkdf cr ck2 ss;
          s3 = s2\<lparr>ck := Some (take 32 t3), tempK3 := Some (drop 32 t3)\<rparr> in
      case ccpDecrypt cr (drop 32 t3) (alloc 12) h1 t of
        None \<Rightarrow> (Inl DecryptError, s3)
      | Some p \<Rightarrow> (
      let keys = hkdf cr (take 32 t3) (alloc 0);
          s4 = s3\<lparr>rk := Some (take 32 keys)\<rparr>;
          s5 = s4\<lparr>sk := Some (drop 32 keys)\<rparr>;
          s6 = s5\<lparr>rn := Some (alloc 12)\<rparr>;
          s7 = s6\<lparr>sn := Some (alloc 12)\<rparr>
      in (Inr (), s7))))))))"

subsection \<open>Nonces and key rotation\<close>

definition incrementSendingNonce :: "NoiseState \<Rightarrow> nat result" where
  "incrementSendingNonce s0 =
     (case sn s0 of None \<Rightarrow> (Inl TypeError, s0) | Some n \<Rightarrow> (
      case readUInt16LE n 4 of Inl e \<Rightarrow> (Inl e, s0) | Inr old \<Rightarrow> (
      let newValue = old + 1 in
      case writeUInt16LE newValue 4 n of
        Inl e \<Rightarrow> (Inl e, s0)
      | Inr n' \<Rightarrow> (Inr newValue, s0\<lparr>sn := Some n'\<rparr>))))"

definition incrementRecievingNonce :: "NoiseState \<Rightarrow> nat result" where
  "incrementRecievingNonce s0 =
     (case rn s0 of None \<Rightarrow> (Inl TypeError, s0) | Some n \<Rightarrow> (
      case readUInt16LE n 4 of Inl e \<Rightarrow> (Inl e, s0) | Inr old \<Rightarrow> (
      let newValue = old + 1 in
      case writeUInt16LE newValue 4 n of
        Inl e \<Rightarrow> (Inl e, s0)
      | Inr n' \<Rightarrow> (Inr newValue, s0\<lparr>rn := Some n'\<rparr>))))"

definition rotateSendingKeys :: "crypto \<Rightarrow> NoiseState \<Rightarrow> unit result" where
  "rotateSendingKeys cr s0 =
     (case ck s0 of None \<Rightarrow> (Inl TypeError, s0) | Some ck0 \<Rightarrow> (
      case sk s0 of None \<Rightarrow> (Inl TypeError, s0) | Some sk0 \<Rightarrow> (
      let result = hkdf cr ck0 sk0;
          s1 = s0\<lparr>sk := Some (drop 32 result)\<rparr>;
          s2 = s1\<lparr>ck := Some (take 32 result)\<rparr>;
          s3 = s2\<lparr>sn := Some (alloc 12)\<rparr>
      in (Inr (), s3))))"

definition rotateRecievingKeys :: "crypto \<Rightarrow> NoiseState \<Rightarrow> unit result" where
  "rotateRecievingKeys cr s0 =
     (case ck s0 of None \<Rightarrow> (Inl TypeError, s0) | Some ck0 \<Rightarrow> (
      case rk s0 of None \<Rightarrow> (Inl TypeError, s0) | Some rk0 \<Rightarrow> (
      let result = hkdf cr ck0 rk0;
          s1 = s0\<lparr>rk := Some (drop 32 result)\<rparr>;
          s2 = s1\<lparr>ck := Some (take 32 result)\<rparr>;
          s3 = s2\<lparr>rn := Some (alloc 12)\<rparr>
      in (Inr (), s3))))"

subsection \<open>Transport\<close>

definition encryptMessage :: "crypto \<Rightarrow> bytes \<Rightarrow> NoiseState \<Rightarrow> bytes result" where
  "encryptMessage cr m s0 =
     (case writeUInt16BE (length m) 0 (alloc 2) of Inl e \<Rightarrow> (Inl e, s0) | Inr l \<Rightarrow> (
      case sk s0 of None \<Rightarrow> (Inl TypeError, s0) | Some k0 \<Rightarrow> (
      case sn s0 of None \<Rightarrow> (Inl TypeError, s0) | Some n0 \<Rightarrow> (
      let lc = ccpEncrypt cr k0 n0 (alloc 0) l in
      case incrementSendingNonce s0 of (Inl e, s1) \<Rightarrow> (Inl e, s1) | (Inr v1, s1) \<Rightarrow> (
      case (if 1000 \<le> v1 then rotateSendingKeys cr s1 else (Inr (), s1)) of
        (Inl e, s2) \<Rightarrow> (Inl e, s2)
      | (Inr u, s2) \<Rightarrow> (
      case sk s2 of None \<Rightarrow> (Inl TypeError, s2) | Some k2 \<Rightarrow> (
      case sn s2 of None \<Rightarrow> (Inl TypeError, s2) | Some n2 \<Rightarrow> (
      let c = ccpEncrypt cr k2 n2 (alloc 0) m in
      case incrementSendingNonce s2 of (Inl e, s3) \<Rightarrow> (Inl e, s3) | (Inr v3, s3) \<Rightarrow> (
      case (if 1000 \<le> v3 then rotateSendingKeys cr s3 else (Inr (), s3)) of
        (Inl e, s4) \<Rightarrow> (Inl e, s4)
      | (Inr u, s4) \<Rightarrow> (Inr (lc @ c), s4))))))))))"

definition decryptLength :: "crypto \<Rightarrow> bytes \<Rightarrow> NoiseState \<Rightarrow> nat result" where
  "decryptLength cr lc s0 =
     (case rk s0 of None \<Rightarrow> (Inl TypeError, s0) | Some k0 \<Rightarrow> (
      case rn s0 of None \<Rightarrow> (Inl TypeError, s0) | Some n0 \<Rightarrow> (
      case ccpDecrypt cr k0 n0 (alloc 0) lc of
        None \<Rightarrow> (Inl DecryptError, s0)
      | Some l \<Rightarrow> (
      case incrementRecievingNonce s0 of (Inl e, s1) \<Rightarrow> (Inl e, s1) | (Inr v1, s1) \<Rightarrow> (
      case (if 1000 \<le> v1 then rotateRecievingKeys cr s1 else (Inr (), s1)) of
        (Inl e, s2) \<Rightarrow> (Inl e, s2)
      | (Inr u, s2) \<Rightarrow> (
      case readUInt16BE l 0 of Inl e \<Rightarrow> (Inl e, s2) | Inr len \<Rightarrow> (Inr len, s2)))))))"

definition decryptMessage :: "crypto \<Rightarrow> bytes \<Rightarrow> NoiseState \<Rightarrow> bytes result" where
  "decryptMessage cr c s0 =
     (case rk s0 of None \<Rightarrow> (Inl TypeError, s0) | Some k0 \<Rightarrow> (
      case rn s0 of None \<Rightarrow> (Inl TypeError, s0) | Some n0 \<Rightarrow> (
      case ccpDecrypt cr k0 n0 (alloc 0) c of
        None \<Rightarrow> (Inl DecryptError, s0)
      | Some m \<Rightarrow> (
      case incrementRecievingNonce s0 of (Inl e, s1) \<Rightarrow> (Inl e, s1) | (Inr v1, s1) \<Rightarrow> (
      case (if 1000 \<le> v1 then rotateRecievingKeys cr s1 else (Inr (), s1)) of
        (Inl e, s2) \<Rightarrow> (Inl e, s2)
      | (Inr u, s2) \<Rightarrow> (Inr m, s2))))))"

section \<open>What the primitives are assumed to do\<close>

text \<open>
  The laws of the primitives that the transport relies on: decryption inverts encryption,
  and a ciphertext is its plaintext and a 16-byte tag.
\<close>

definition aead_ok :: "crypto \<Rightarrow> bool" where
  "aead_ok cr \<longleftrightarrow>
     (\<forall>k n ad pt. ccpDecrypt cr k n ad (ccpEncrypt cr k n ad pt) = Some pt) \<and>
     (\<forall>k n ad pt. length (ccpEncrypt cr k n ad pt) = length pt + 16)"

text \<open>
  The handshake relies on two more: the Diffie-Hellman secret of a derived public key and
  a private key exists and is the same from both sides, and a compressed public key has
  33 bytes.
\<close>

definition crypto_ok :: "crypto \<Rightarrow> bool" where
  "crypto_ok cr \<longleftrightarrow>
     (\<forall>a b. \<exists>ss. ecdh cr (getPublicKey cr a) b = Some ss \<and>
                   ecdh cr (getPublicKey cr b) a = Some ss) \<and>
     (\<forall>k n ad pt. ccpDecrypt cr k n ad (ccpEncrypt cr k n ad pt) = Some pt) \<and>
     (\<forall>k n ad pt. length (ccpEncrypt cr k n ad pt) = length pt + 16) \<and>
     (\<forall>a. length (getPublicKey cr a) = 33)"

subsection \<open>A small instance of the primitives\<close>

text \<open>
  An executable instance with the right lengths and the laws above, on which the methods
  are run at concrete inputs. It is not the cryptography of the library. Its \<open>ecdh\<close>
  accepts the public keys its \<open>getPublicKey\<close> makes, 33 bytes that begin with 2, and rejects
  every other.
\<close>

definition toy_digest :: "bytes \<Rightarrow> bytes" where
  "toy_digest x = foldl (\<lambda>a b. 3 * a + b + 1) 7 x # replicate 31 (of_nat (length x))"

definition pad32 :: "bytes \<Rightarrow> bytes" where
  "pad32 x = take 32 (x @ replicate 32 0)"

definition toy_tag :: "bytes \<Rightarrow> bytes \<Rightarrow> bytes \<Rightarrow> bytes \<Rightarrow> bytes" where
  "toy_tag k n ad pt = take 16 (toy_digest (k @ n @ ad @ pt))"

definition toy_mask :: "bytes \<Rightarrow> bytes \<Rightarrow> byte" where
  "toy_mask k n = hd (toy_digest (k @ n))"

definition toy_decrypt :: "bytes \<Rightarrow> bytes \<Rightarrow> bytes \<Rightarrow> bytes \<Rightarrow> bytes option" where
  "toy_decrypt k n ad ct =
     (if length ct < 16 then None
      else let pt = map (\<lambda>b. b - toy_mask k n) (take (length ct - 16) ct)
           in if drop (length ct - 16) ct = toy_tag k n ad pt then Some pt else None)"

definition toy_crypto :: crypto where
  "toy_crypto =
     \<lparr> sha256 = toy_digest,
       hkdf = (\<lambda>salt ikm. toy_digest (salt @ ikm) @ toy_digest (ikm @ salt @ [1])),
       ecdh = (\<lambda>pub priv.
          if length pub = 33 \<and> hd pub = 2
          then Some (replicate 32 (sum_list (pad32 (tl pub)) + sum_list (pad32 priv)))
          else None),
       getPublicKey = (\<lambda>priv. 2 # pad32 priv),
       ccpEncrypt = (\<lambda>k n ad pt. map (\<lambda>b. b + toy_mask k n) pt @ toy_tag k n ad pt),
       ccpDecrypt = toy_decrypt \<rparr>"

text \<open>Two fresh objects, with the private keys of the test vectors of BOLT 8.\<close>

definition toy_initiator :: NoiseState where
  "toy_initiator = new_NoiseState toy_crypto (replicate 32 17) (replicate 32 18)"

definition toy_responder :: NoiseState where
  "toy_responder = new_NoiseState toy_crypto (replicate 32 33) (replicate 32 34)"

section \<open>Primitives that differ away from the nonces of the handshake\<close>

text \<open>
  Two sets of primitives agree at the zero nonce when they have the same hash, key
  derivation and curve operations, and their encryptions and decryptions coincide whenever
  the nonce is twelve zero bytes; at any other nonce they may differ.
\<close>

definition agree_at_zero_nonce :: "crypto \<Rightarrow> crypto \<Rightarrow> bool" where
  "agree_at_zero_nonce cr cr' \<longleftrightarrow>
     sha256 cr' = sha256 cr \<and> hkdf cr' = hkdf cr \<and> ecdh cr' = ecdh cr \<and>
     getPublicKey cr' = getPublicKey cr \<and>
     (\<forall>k ad x. ccpEncrypt cr' k (alloc 12) ad x = ccpEncrypt cr k (alloc 12) ad x) \<and>
     (\<forall>k ad x. ccpDecrypt cr' k (alloc 12) ad x = ccpDecrypt cr k (alloc 12) ad x)"

text \<open>
  The small instance, made useless at every nonce but the two that the handshake has, and
  an initiator as act 2 leaves it.
\<close>

definition toy_crypto_handshake :: crypto where
  "toy_crypto_handshake =
     toy_crypto
       \<lparr>ccpEncrypt := (\<lambda>k n ad x.
          if n = alloc 12 \<or> n = [0, 0, 0, 0, 1, 0, 0, 0, 0, 0, 0, 0]
          then ccpEncrypt toy_crypto k n ad x else []),
        ccpDecrypt := (\<lambda>k n ad x.
          if n = alloc 12 \<or> n = [0, 0, 0, 0, 1, 0, 0, 0, 0, 0, 0, 0]
          then ccpDecrypt toy_crypto k n ad x else None)\<rparr>"

definition toy_after_act2 :: NoiseState where
  "toy_after_act2 =
     toy_initiator\<lparr>rpk := Some (lpk toy_responder), repk := Some (epk toy_responder),
       h := Some (replicate 32 4), ck := Some (replicate 32 1),
       tempK2 := Some (replicate 32 5)\<rparr>"

section \<open>The transport counter of the specification\<close>

text \<open>
  The 12-byte nonce whose bytes 4 and 5 hold the counter \<open>i\<close> as a little-endian 16-bit
  number, every other byte zero.
\<close>

definition nonce :: "nat \<Rightarrow> bytes" where
  "nonce i = [0, 0, 0, 0, of_nat (i mod 256), of_nat (i div 256), 0, 0, 0, 0, 0, 0]"

text \<open>
  One use of a direction's key as sections 4.10 and 4.11 of the specification word it, on
  the chaining key, the key and the counter: the counter is incremented; if the new value
  is at least 1000 the pair is replaced by the two halves of \<open>hkdf(ck, key)\<close> and the
  counter reset to 0. \<open>rotate\<close> is the replacement alone.
\<close>

definition use_key :: "crypto \<Rightarrow> bytes \<times> bytes \<times> nat \<Rightarrow> bytes \<times> bytes \<times> nat" where
  "use_key cr = (\<lambda>(c, k, i).
     if 1000 \<le> i + 1 then (take 32 (hkdf cr c k), drop 32 (hkdf cr c k), 0)
     else (c, k, i + 1))"

definition rotate :: "crypto \<Rightarrow> bytes \<times> bytes \<Rightarrow> bytes \<times> bytes" where
  "rotate cr = (\<lambda>(c, k). (take 32 (hkdf cr c k), drop 32 (hkdf cr c k)))"

text \<open>
  Two objects in the transport phase, peers of each other: the sending key of one is the
  receiving key of the other. The arguments are the sending and the receiving counter.
\<close>

definition toy_transport :: "nat \<Rightarrow> nat \<Rightarrow> NoiseState" where
  "toy_transport i j =
     toy_initiator\<lparr>rpk := Some (lpk toy_responder), ck := Some (replicate 32 1),
       sk := Some (replicate 32 2), rk := Some (replicate 32 3),
       sn := Some (nonce i), rn := Some (nonce j)\<rparr>"

definition toy_peer :: "nat \<Rightarrow> nat \<Rightarrow> NoiseState" where
  "toy_peer i j =
     toy_responder\<lparr>rpk := Some (lpk toy_initiator), ck := Some (replicate 32 1),
       sk := Some (replicate 32 3), rk := Some (replicate 32 2),
       sn := Some (nonce i), rn := Some (nonce j)\<rparr>"

text \<open>
  How a caller reads a frame: \<open>decryptLength\<close> on its first 18 bytes, then
  \<open>decryptMessage\<close> on the rest. \<open>frame_of\<close> is the frame a call of \<open>encryptMessage\<close>
  returned.
\<close>

definition receive_frame :: "crypto \<Rightarrow> bytes \<Rightarrow> NoiseState \<Rightarrow> bytes result" where
  "receive_frame cr f s =
     (case decryptLength cr (take 18 f) s of
        (Inl e, s1) \<Rightarrow> (Inl e, s1)
      | (Inr n, s1) \<Rightarrow> decryptMessage cr (drop 18 f) s1)"

definition frame_of :: "bytes result \<Rightarrow> bytes" where
  "frame_of r = (case fst r of Inl e \<Rightarrow> [] | Inr f \<Rightarrow> f)"

text \<open>
  Two peers in step, each having used both its keys 998 times, exchange one frame each
  way, which takes both directions of both peers through a rotation. In \<open>crossed\<close> each
  peer sends its frame before it reads the other's; in \<open>in_turn\<close> the second peer reads the
  first frame before it sends its own. Both are the pair of states after the exchange.
\<close>

definition crossed :: "NoiseState \<times> NoiseState" where
  "crossed =
     (let a = encryptMessage toy_crypto [1] (toy_transport 998 998);
          b = encryptMessage toy_crypto [2] (toy_peer 998 998)
      in (snd (receive_frame toy_crypto (frame_of b) (snd a)),
          snd (receive_frame toy_crypto (frame_of a) (snd b))))"

definition in_turn :: "NoiseState \<times> NoiseState" where
  "in_turn =
     (let a = encryptMessage toy_crypto [1] (toy_transport 998 998);
          b = encryptMessage toy_crypto [2]
                (snd (receive_frame toy_crypto (frame_of a) (toy_peer 998 998)))
      in (snd (receive_frame toy_crypto (frame_of b) (snd a)), snd b))"

text \<open>
  The states an object can reach from \<open>s0\<close> by calls of the three transport methods, each
  call leaving the state it leaves whether it returns or throws.
\<close>

inductive transport_reach :: "crypto \<Rightarrow> NoiseState \<Rightarrow> NoiseState \<Rightarrow> bool"
  for cr :: crypto and s0 :: NoiseState where
  start: "transport_reach cr s0 s0"
| encrypt: "transport_reach cr s0 s \<Longrightarrow> transport_reach cr s0 (snd (encryptMessage cr m s))"
| decrypt_length: "transport_reach cr s0 s \<Longrightarrow> transport_reach cr s0 (snd (decryptLength cr c s))"
| decrypt_message: "transport_reach cr s0 s \<Longrightarrow> transport_reach cr s0 (snd (decryptMessage cr c s))"

section \<open>Basic facts\<close>

lemma length_alloc [simp]: "length (alloc n) = n"
  by (simp add: alloc_def)

lemma alloc_0 [simp]: "alloc 0 = []"
  by (simp add: alloc_def)

lemma act_msg:
  assumes "length e = n"
  shows "length (alloc 1 @ e @ c) = Suc n + length c" "(alloc 1 @ e @ c) ! 0 = 0"
    "buffer_slice 1 (Suc n) (alloc 1 @ e @ c) = e" "drop (Suc n) (alloc 1 @ e @ c) = c"
  using assms by (simp_all add: buffer_slice_def alloc_def)

lemma initialize_h [simp]:
  "h (initialize cr pubkey s) =
     Some (sha256 cr (sha256 cr (sha256 cr protocolName @ prologue) @ pubkey))"
  by (simp add: initialize_def Let_def)

lemma initialize_ck [simp]: "ck (initialize cr pubkey s) = Some (sha256 cr protocolName)"
  by (simp add: initialize_def Let_def)

text \<open>
  Were \<open>ck\<close> and \<open>h\<close> equal after \<open>_initialize\<close>, the hash would give the 36 bytes of the
  protocol name and a longer input the same digest.
\<close>

lemma initialize_ck_eq_h_collision:
  assumes "ck (initialize cr pubkey s) = h (initialize cr pubkey s)"
  shows "sha256 cr protocolName
           = sha256 cr (sha256 cr (sha256 cr protocolName @ prologue) @ pubkey)"
  using assms by simp

lemma length_protocolName: "length protocolName = 36" "length prologue = 9"
  by (simp_all add: protocolName_def prologue_def from_string_def)

lemma initiatorAct1_returns:
  assumes "ecdh cr p (es s) = Some ss"
  shows "\<not> isl (fst (initiatorAct1 cr p s))" "es (snd (initiatorAct1 cr p s)) = es s"
  using assms by (simp_all add: initiatorAct1_def initialize_def Let_def)

lemma initialize_frame [simp]:
  "ls (initialize cr pubkey s) = ls s" "lpk (initialize cr pubkey s) = lpk s"
  "es (initialize cr pubkey s) = es s" "epk (initialize cr pubkey s) = epk s"
  "rpk (initialize cr pubkey s) = rpk s" "repk (initialize cr pubkey s) = repk s"
  "rk (initialize cr pubkey s) = rk s" "sk (initialize cr pubkey s) = sk s"
  "rn (initialize cr pubkey s) = rn s" "sn (initialize cr pubkey s) = sn s"
  "tempK1 (initialize cr pubkey s) = tempK1 s" "tempK2 (initialize cr pubkey s) = tempK2 s"
  "tempK3 (initialize cr pubkey s) = tempK3 s"
  by (simp_all add: initialize_def Let_def)

lemma length_toy_digest [simp]: "length (toy_digest x) = 32"
  by (simp add: toy_digest_def)

lemma pad32_pad32 [simp]: "pad32 (pad32 x) = pad32 x"
  by (simp add: pad32_def)

lemma length_pad32 [simp]: "length (pad32 x) = 32"
  by (simp add: pad32_def)

lemma length_toy_tag [simp]: "length (toy_tag k n ad pt) = 16"
  by (simp add: toy_tag_def)

lemma toy_decrypt_encrypt:
  "toy_decrypt k n ad (map (\<lambda>b. b + toy_mask k n) pt @ toy_tag k n ad pt) = Some pt"
proof -
  have "map ((\<lambda>b. b - toy_mask k n) \<circ> (\<lambda>b. b + toy_mask k n)) pt = pt"
    by (simp add: comp_def)
  then show ?thesis
    by (simp add: toy_decrypt_def Let_def)
qed

lemma toy_ecdh_derived:
  "ecdh toy_crypto (getPublicKey toy_crypto a) b
     = Some (replicate 32 (sum_list (pad32 a) + sum_list (pad32 b)))"
  by (simp add: toy_crypto_def)

lemma toy_aead_ok: "aead_ok toy_crypto"
  unfolding aead_ok_def
  by (simp add: toy_crypto_def toy_decrypt_encrypt)

lemma toy_crypto_ok: "crypto_ok toy_crypto"
  unfolding crypto_ok_def
  by (simp add: toy_crypto_def toy_decrypt_encrypt add.commute)

subsection \<open>Nonces\<close>

lemma replicate_12: "replicate 12 x = [x, x, x, x, x, x, x, x, x, x, x, x]"
  by (simp add: numeral_eq_Suc)

lemma nonce_0: "nonce 0 = alloc 12"
  by (simp add: nonce_def alloc_def replicate_12)

lemma length_nonce [simp]: "length (nonce i) = 12"
  by (simp add: nonce_def)

lemma byte_split:
  assumes "c < 65536"
  shows "unat (of_nat (c mod 256) :: byte) + 256 * unat (of_nat (c div 256) :: byte) = c"
proof -
  have "c div 256 < 256" using assms by simp
  then show ?thesis by (simp add: unat_of_nat)
qed

lemma read_nonce: "i < 65536 \<Longrightarrow> readUInt16LE (nonce i) 4 = Inr i"
  using byte_split[of i] by (simp add: readUInt16LE_def nonce_def)

lemma write_nonce: "v < 65536 \<Longrightarrow> writeUInt16LE v 4 (nonce i) = Inr (nonce v)"
  by (simp add: writeUInt16LE_def nonce_def)

lemma write_len: "n \<le> 65535 \<Longrightarrow>
  writeUInt16BE n 0 (alloc 2) = Inr [of_nat (n div 256), of_nat (n mod 256)]"
  by (simp add: writeUInt16BE_def alloc_def numeral_2_eq_2)

lemma incrementSendingNonce_general:
  assumes "sn s = Some n" "6 \<le> length n" "unat (n ! 4) + 256 * unat (n ! 5) = c" "c < 65535"
  shows "incrementSendingNonce s =
    (Inr (c + 1),
     s\<lparr>sn := Some (n[4 := of_nat ((c + 1) mod 256), 5 := of_nat ((c + 1) div 256)])\<rparr>)"
  using assms
  by (simp add: incrementSendingNonce_def readUInt16LE_def writeUInt16LE_def Let_def)

lemma incrementRecievingNonce_general:
  assumes "rn s = Some n" "6 \<le> length n" "unat (n ! 4) + 256 * unat (n ! 5) = c" "c < 65535"
  shows "incrementRecievingNonce s =
    (Inr (c + 1),
     s\<lparr>rn := Some (n[4 := of_nat ((c + 1) mod 256), 5 := of_nat ((c + 1) div 256)])\<rparr>)"
  using assms
  by (simp add: incrementRecievingNonce_def readUInt16LE_def writeUInt16LE_def Let_def)

lemma incrementSendingNonce_nonce:
  "sn s = Some (nonce i) \<Longrightarrow> i < 65535 \<Longrightarrow>
   incrementSendingNonce s = (Inr (i + 1), s\<lparr>sn := Some (nonce (i + 1))\<rparr>)"
  by (simp add: incrementSendingNonce_def read_nonce write_nonce Let_def)

lemma incrementRecievingNonce_nonce:
  "rn s = Some (nonce i) \<Longrightarrow> i < 65535 \<Longrightarrow>
   incrementRecievingNonce s = (Inr (i + 1), s\<lparr>rn := Some (nonce (i + 1))\<rparr>)"
  by (simp add: incrementRecievingNonce_def read_nonce write_nonce Let_def)

subsection \<open>The transport methods against the counter of the specification\<close>

lemma same_keys_send:
  "ck s = Some c \<Longrightarrow> sk s = Some k \<Longrightarrow>
   s\<lparr>ck := Some c, sk := Some k, sn := x\<rparr> = s\<lparr>sn := x\<rparr>"
  by (cases s) simp

lemma same_keys_recv:
  "ck s = Some c \<Longrightarrow> rk s = Some k \<Longrightarrow>
   s\<lparr>ck := Some c, rk := Some k, rn := x\<rparr> = s\<lparr>rn := x\<rparr>"
  by (cases s) simp

lemma encryptMessage_eq:
  assumes "ck s = Some c" "sk s = Some k" "sn s = Some (nonce i)" "i < 65535"
    and "length m \<le> 65535"
  shows "encryptMessage cr m s =
    (Inr (ccpEncrypt cr k (nonce i) [] [of_nat (length m div 256), of_nat (length m mod 256)]
          @ ccpEncrypt cr (fst (snd (use_key cr (c, k, i))))
              (nonce (snd (snd (use_key cr (c, k, i))))) [] m),
     s\<lparr>ck := Some (fst (use_key cr (use_key cr (c, k, i)))),
       sk := Some (fst (snd (use_key cr (use_key cr (c, k, i))))),
       sn := Some (nonce (snd (snd (use_key cr (use_key cr (c, k, i))))))\<rparr>)"
  using assms
  by (simp add: encryptMessage_def write_len incrementSendingNonce_nonce rotateSendingKeys_def
      use_key_def Let_def nonce_0[symmetric] same_keys_send)

lemma decryptMessage_eq:
  assumes "ck s = Some c" "rk s = Some k" "rn s = Some (nonce i)" "i < 65535"
    and "ccpDecrypt cr k (nonce i) [] ct = Some p"
  shows "decryptMessage cr ct s =
    (Inr p,
     s\<lparr>ck := Some (fst (use_key cr (c, k, i))),
       rk := Some (fst (snd (use_key cr (c, k, i)))),
       rn := Some (nonce (snd (snd (use_key cr (c, k, i)))))\<rparr>)"
  using assms
  by (simp add: decryptMessage_def incrementRecievingNonce_nonce rotateRecievingKeys_def
      use_key_def Let_def nonce_0[symmetric] same_keys_recv)

lemma decryptLength_eq:
  assumes "ck s = Some c" "rk s = Some k" "rn s = Some (nonce i)" "i < 65535"
    and "ccpDecrypt cr k (nonce i) [] ct = Some [b1, b0]"
  shows "decryptLength cr ct s =
    (Inr (256 * unat b1 + unat b0),
     s\<lparr>ck := Some (fst (use_key cr (c, k, i))),
       rk := Some (fst (snd (use_key cr (c, k, i)))),
       rn := Some (nonce (snd (snd (use_key cr (c, k, i)))))\<rparr>)"
  using assms
  by (simp add: decryptLength_def incrementRecievingNonce_nonce rotateRecievingKeys_def
      use_key_def Let_def nonce_0[symmetric] same_keys_recv readUInt16BE_def)

lemma use_key_iterate:
  "(use_key cr ^^ u) (c, k, 0) =
     (fst ((rotate cr ^^ (u div 1000)) (c, k)), snd ((rotate cr ^^ (u div 1000)) (c, k)),
      u mod 1000)"
proof (induction u)
  case 0
  show ?case by simp
next
  case (Suc u)
  show ?case
  proof (cases "u mod 1000 = 999")
    case True
    then have "Suc u mod 1000 = 0" "Suc u div 1000 = Suc (u div 1000)"
      by (simp_all add: mod_Suc div_Suc)
    with True Suc show ?thesis
      by (simp add: use_key_def rotate_def split_beta)
  next
    case False
    then have "Suc u mod 1000 = Suc (u mod 1000)" "Suc u div 1000 = u div 1000"
      by (simp_all add: mod_Suc div_Suc)
    moreover have "u mod 1000 < 999"
    proof -
      have "u mod 1000 < 1000" by simp
      with False show ?thesis by arith
    qed
    ultimately show ?thesis
      using Suc by (simp add: use_key_def)
  qed
qed

lemma toy_transport_fields [simp]:
  "ck (toy_transport i j) = Some (replicate 32 1)" "sk (toy_transport i j) = Some (replicate 32 2)"
  "rk (toy_transport i j) = Some (replicate 32 3)"
  "sn (toy_transport i j) = Some (nonce i)" "rn (toy_transport i j) = Some (nonce j)"
  by (simp_all add: toy_transport_def)

lemma toy_peer_fields [simp]:
  "ck (toy_peer i j) = Some (replicate 32 1)" "sk (toy_peer i j) = Some (replicate 32 3)"
  "rk (toy_peer i j) = Some (replicate 32 2)"
  "sn (toy_peer i j) = Some (nonce i)" "rn (toy_peer i j) = Some (nonce j)"
  by (simp_all add: toy_peer_def)

subsection \<open>The counters in the transport phase\<close>

text \<open>
  Every call of \<open>encryptMessage\<close> uses the sending key twice or not at all, and 1000 is
  even: from act 3 on, the sending counter is even and at most 998 whenever a transport
  method is entered, so a rotation never falls between the two halves of a frame.
\<close>

lemma receiving_keeps_sending:
  "sn (snd (decryptLength cr c s)) = sn s" "sk (snd (decryptLength cr c s)) = sk s"
  "sn (snd (decryptMessage cr c s)) = sn s" "sk (snd (decryptMessage cr c s)) = sk s"
  by (simp_all add: decryptLength_def decryptMessage_def incrementRecievingNonce_def
      rotateRecievingKeys_def Let_def split: option.splits sum.splits if_splits)

lemma receiving_keeps_ck:
  "ck s \<noteq> None \<Longrightarrow> ck (snd (decryptLength cr c s)) \<noteq> None"
  "ck s \<noteq> None \<Longrightarrow> ck (snd (decryptMessage cr c s)) \<noteq> None"
  by (auto simp add: decryptLength_def decryptMessage_def incrementRecievingNonce_def
      rotateRecievingKeys_def Let_def split: option.splits sum.splits if_splits)

lemma encryptMessage_too_long:
  "65535 < length m \<Longrightarrow> encryptMessage cr m s = (Inl RangeError, s)"
  by (simp add: encryptMessage_def writeUInt16BE_def)

lemma sending_counter_even:
  assumes "transport_reach cr s0 s"
    and "sn s0 = Some (alloc 12)" "sk s0 \<noteq> None" "ck s0 \<noteq> None"
  shows "\<exists>i. sn s = Some (nonce i) \<and> even i \<and> i < 999 \<and> sk s \<noteq> None \<and> ck s \<noteq> None"
  using assms
proof (induction rule: transport_reach.induct)
  case start
  then show ?case by (auto simp: nonce_0[symmetric] intro: exI[of _ 0])
next
  case (encrypt s m)
  then obtain i c k where s: "sn s = Some (nonce i)" "even i" "i < 999" "sk s = Some k" "ck s = Some c"
    by auto
  show ?case
  proof (cases "65535 < length m")
    case True
    with s show ?thesis by (auto simp: encryptMessage_too_long)
  next
    case False
    then have len: "length m \<le> 65535" by simp
    have i: "i < 65535" using s(3) by simp
    have u1: "use_key cr (c, k, i) = (c, k, i + 1)"
      using s(3) by (simp add: use_key_def)
    show ?thesis
    proof (cases "i = 997 \<or> i = 998")
      case True
      with s(2) have "i = 998" by auto
      then have "snd (snd (use_key cr (use_key cr (c, k, i)))) = 0"
        by (simp add: use_key_def)
      then show ?thesis
        by (auto simp add: encryptMessage_eq[OF s(5,4,1) i len] intro!: exI[of _ 0])
    next
      case False
      then have "i + 2 < 999" using s(3) by arith
      then have "use_key cr (use_key cr (c, k, i)) = (c, k, i + 2)"
        by (simp add: use_key_def)
      with s(2) \<open>i + 2 < 999\<close> show ?thesis
        by (auto simp add: encryptMessage_eq[OF s(5,4,1) i len] intro!: exI[of _ "i + 2"])
    qed
  qed
next
  case (decrypt_length s c)
  then obtain i where "sn s = Some (nonce i)" "even i" "i < 999" "sk s \<noteq> None" "ck s \<noteq> None"
    by auto
  then show ?case
    using receiving_keeps_ck(1)[of s cr c] by (auto simp: receiving_keeps_sending)
next
  case (decrypt_message s c)
  then obtain i where "sn s = Some (nonce i)" "even i" "i < 999" "sk s \<noteq> None" "ck s \<noteq> None"
    by auto
  then show ?case
    using receiving_keeps_ck(2)[of s cr c] by (auto simp: receiving_keeps_sending)
qed

text \<open>
  The receiving counter, incremented once by each decryption that succeeds, stays below
  1000 as well.
\<close>

lemma sending_keeps_receiving:
  "rn (snd (encryptMessage cr m s)) = rn s" "rk (snd (encryptMessage cr m s)) = rk s"
  by (simp_all add: encryptMessage_def incrementSendingNonce_def rotateSendingKeys_def Let_def
      split: option.splits sum.splits if_splits)

lemma sending_keeps_ck:
  "ck s \<noteq> None \<Longrightarrow> ck (snd (encryptMessage cr m s)) \<noteq> None"
  by (auto simp add: encryptMessage_def incrementSendingNonce_def rotateSendingKeys_def Let_def
      split: option.splits sum.splits if_splits)

lemma decrypt_state:
  assumes "ck s = Some c" "rk s = Some k" "rn s = Some (nonce i)" "i < 65535"
  shows "snd (decryptLength cr ct s) =
      (case ccpDecrypt cr k (nonce i) [] ct of
         None \<Rightarrow> s
       | Some l \<Rightarrow> s\<lparr>ck := Some (fst (use_key cr (c, k, i))),
            rk := Some (fst (snd (use_key cr (c, k, i)))),
            rn := Some (nonce (snd (snd (use_key cr (c, k, i)))))\<rparr>)"
    "snd (decryptMessage cr ct s) =
      (case ccpDecrypt cr k (nonce i) [] ct of
         None \<Rightarrow> s
       | Some l \<Rightarrow> s\<lparr>ck := Some (fst (use_key cr (c, k, i))),
            rk := Some (fst (snd (use_key cr (c, k, i)))),
            rn := Some (nonce (snd (snd (use_key cr (c, k, i)))))\<rparr>)"
  using assms
  by (simp_all add: decryptLength_def decryptMessage_def incrementRecievingNonce_nonce
      rotateRecievingKeys_def use_key_def Let_def nonce_0[symmetric] same_keys_recv
      split: option.splits sum.splits)

lemma receiving_counter_bound:
  assumes "transport_reach cr s0 s"
    and "rn s0 = Some (alloc 12)" "rk s0 \<noteq> None" "ck s0 \<noteq> None"
  shows "\<exists>j. rn s = Some (nonce j) \<and> j < 1000 \<and> rk s \<noteq> None \<and> ck s \<noteq> None"
  using assms
proof (induction rule: transport_reach.induct)
  case start
  then show ?case by (auto simp: nonce_0[symmetric] intro: exI[of _ 0])
next
  case (encrypt s m)
  then obtain j where "rn s = Some (nonce j)" "j < 1000" "rk s \<noteq> None" "ck s \<noteq> None"
    by auto
  then show ?case
    using sending_keeps_ck[of s cr m] by (auto simp: sending_keeps_receiving)
next
  case (decrypt_length s ct)
  then obtain j c k where s: "rn s = Some (nonce j)" "j < 1000" "rk s = Some k" "ck s = Some c"
    by auto
  have j: "j < 65535" using s(2) by simp
  show ?case
    using s(1,2) by (auto simp: decrypt_state(1)[OF s(4,3,1) j] s(3,4) use_key_def split: option.splits)
next
  case (decrypt_message s ct)
  then obtain j c k where s: "rn s = Some (nonce j)" "j < 1000" "rk s = Some k" "ck s = Some c"
    by auto
  have j: "j < 65535" using s(2) by simp
  show ?case
    using s(1,2) by (auto simp: decrypt_state(2)[OF s(4,3,1) j] s(3,4) use_key_def split: option.splits)
qed

lemma len_bytes: "n \<le> 65535 \<Longrightarrow>
  256 * unat (of_nat (n div 256) :: byte) + unat (of_nat (n mod 256) :: byte) = n"
  using byte_split[of n] by simp

subsection \<open>The nonces of the handshake\<close>

lemma acts12_zero_nonce:
  assumes "agree_at_zero_nonce cr cr'"
  shows "initiatorAct1 cr' p s = initiatorAct1 cr p s" "receiveAct1 cr' m s = receiveAct1 cr m s"
    "recieveAct2 cr' s = recieveAct2 cr s" "initiatorAct2 cr' m s = initiatorAct2 cr m s"
proof -
  have eq: "sha256 cr' = sha256 cr" "hkdf cr' = hkdf cr" "ecdh cr' = ecdh cr"
    "getPublicKey cr' = getPublicKey cr"
    "\<And>k ad x. ccpEncrypt cr' k (alloc 12) ad x = ccpEncrypt cr k (alloc 12) ad x"
    "\<And>k ad x. ccpDecrypt cr' k (alloc 12) ad x = ccpDecrypt cr k (alloc 12) ad x"
    using assms unfolding agree_at_zero_nonce_def by blast+
  show "initiatorAct1 cr' p s = initiatorAct1 cr p s"
    unfolding initiatorAct1_def initialize_def eq by (rule refl)
  show "receiveAct1 cr' m s = receiveAct1 cr m s"
    unfolding receiveAct1_def initialize_def eq by (rule refl)
  show "recieveAct2 cr' s = recieveAct2 cr s"
    unfolding recieveAct2_def eq by (rule refl)
  show "initiatorAct2 cr' m s = initiatorAct2 cr m s"
    unfolding initiatorAct2_def eq by (rule refl)
qed

lemma act3_nonces:
  assumes "agree_at_zero_nonce cr cr'" "tempK2 s = Some k2" "h s = Some h0"
  shows "ccpEncrypt cr' k2 [0, 0, 0, 0, 1, 0, 0, 0, 0, 0, 0, 0] h0 (lpk s)
          = ccpEncrypt cr k2 [0, 0, 0, 0, 1, 0, 0, 0, 0, 0, 0, 0] h0 (lpk s)
        \<Longrightarrow> initiatorAct3 cr' s = initiatorAct3 cr s"
    "ccpDecrypt cr' k2 [0, 0, 0, 0, 1, 0, 0, 0, 0, 0, 0, 0] h0 (buffer_slice 1 50 m)
          = ccpDecrypt cr k2 [0, 0, 0, 0, 1, 0, 0, 0, 0, 0, 0, 0] h0 (buffer_slice 1 50 m)
        \<Longrightarrow> receiveAct3 cr' m s = receiveAct3 cr m s"
proof -
  have eq: "sha256 cr' = sha256 cr" "hkdf cr' = hkdf cr" "ecdh cr' = ecdh cr"
    "getPublicKey cr' = getPublicKey cr"
    "\<And>k ad x. ccpEncrypt cr' k (alloc 12) ad x = ccpEncrypt cr k (alloc 12) ad x"
    "\<And>k ad x. ccpDecrypt cr' k (alloc 12) ad x = ccpDecrypt cr k (alloc 12) ad x"
    using assms(1) unfolding agree_at_zero_nonce_def by blast+
  show "ccpEncrypt cr' k2 [0, 0, 0, 0, 1, 0, 0, 0, 0, 0, 0, 0] h0 (lpk s)
          = ccpEncrypt cr k2 [0, 0, 0, 0, 1, 0, 0, 0, 0, 0, 0, 0] h0 (lpk s)
        \<Longrightarrow> initiatorAct3 cr' s = initiatorAct3 cr s"
    by (simp add: initiatorAct3_def Let_def eq assms(2,3) split: option.splits)
  show "ccpDecrypt cr' k2 [0, 0, 0, 0, 1, 0, 0, 0, 0, 0, 0, 0] h0 (buffer_slice 1 50 m)
          = ccpDecrypt cr k2 [0, 0, 0, 0, 1, 0, 0, 0, 0, 0, 0, 0] h0 (buffer_slice 1 50 m)
        \<Longrightarrow> receiveAct3 cr' m s = receiveAct3 cr m s"
    by (simp add: receiveAct3_def Let_def eq assms(2,3) split: option.splits)
qed

lemma act3_static_key:
  assumes "tempK2 s = Some k2" "h s = Some h0"
  shows "repk s = Some re \<Longrightarrow> ck s = Some c0 \<Longrightarrow>
      fst (initiatorAct3 cr s) =
        (case ecdh cr re (ls s) of
           None \<Rightarrow> Inl EcdhError
         | Some ss \<Rightarrow>
             Inr (alloc 1 @ ccpEncrypt cr k2 [0, 0, 0, 0, 1, 0, 0, 0, 0, 0, 0, 0] h0 (lpk s)
                  @ ccpEncrypt cr (drop 32 (hkdf cr c0 ss)) (alloc 12)
                      (sha256 cr
                         (h0 @ ccpEncrypt cr k2 [0, 0, 0, 0, 1, 0, 0, 0, 0, 0, 0, 0] h0 (lpk s)))
                      (alloc 0)))"
    "length m = 66 \<Longrightarrow> m ! 0 = 0 \<Longrightarrow>
      rpk (snd (receiveAct3 cr m s)) =
        (case ccpDecrypt cr k2 [0, 0, 0, 0, 1, 0, 0, 0, 0, 0, 0, 0] h0 (buffer_slice 1 50 m) of
           None \<Rightarrow> rpk s | Some rs \<Rightarrow> Some rs)"
  using assms
  by (simp_all add: initiatorAct3_def receiveAct3_def Let_def split: option.splits)

lemma toy_crypto_handshake_agrees: "agree_at_zero_nonce toy_crypto toy_crypto_handshake"
  by (simp add: agree_at_zero_nonce_def toy_crypto_handshake_def)

lemma toy_crypto_handshake_differs:
  "ccpEncrypt toy_crypto_handshake [] (nonce 2) [] [] \<noteq> ccpEncrypt toy_crypto [] (nonce 2) [] []"
  by code_simp

subsection \<open>The errors of the acts\<close>

lemma acts_not_out_of_sequence:
  "fst (initiatorAct1 cr p s) \<noteq> Inl (Error ''OUT_OF_SEQUENCE'')"
  "fst (initiatorAct2 cr m s) \<noteq> Inl (Error ''OUT_OF_SEQUENCE'')"
  "fst (initiatorAct3 cr s) \<noteq> Inl (Error ''OUT_OF_SEQUENCE'')"
  "fst (receiveAct1 cr m s) \<noteq> Inl (Error ''OUT_OF_SEQUENCE'')"
  "fst (recieveAct2 cr s) \<noteq> Inl (Error ''OUT_OF_SEQUENCE'')"
  "fst (receiveAct3 cr m s) \<noteq> Inl (Error ''OUT_OF_SEQUENCE'')"
  by (simp_all add: initiatorAct1_def initiatorAct2_def initiatorAct3_def receiveAct1_def
      recieveAct2_def receiveAct3_def Let_def split: option.split)

lemma receiveAct1_errors:
  "fst (receiveAct1 cr m s) = Inl (Error ''ACT1_READ_FAILED'') \<longleftrightarrow> length m \<noteq> 50"
  "length m = 50 \<Longrightarrow>
     fst (receiveAct1 cr m s) = Inl (Error ''ACT1_BAD_VERSION'') \<longleftrightarrow> m ! 0 \<noteq> 0"
  by (simp_all add: receiveAct1_def Let_def split: option.split)

lemma initiatorAct2_errors:
  "fst (initiatorAct2 cr m s) = Inl (Error ''ACT2_READ_FAILED'') \<longleftrightarrow> length m \<noteq> 50"
  "length m = 50 \<Longrightarrow>
     fst (initiatorAct2 cr m s) = Inl (Error ''ACT2_BAD_VERSION'') \<longleftrightarrow> m ! 0 \<noteq> 0"
  by (simp_all add: initiatorAct2_def Let_def split: option.split)

lemma receiveAct3_errors:
  "fst (receiveAct3 cr m s) = Inl (Error ''ACT3_READ_FAILED'') \<longleftrightarrow> length m \<noteq> 66"
  "length m = 66 \<Longrightarrow>
     fst (receiveAct3 cr m s) = Inl (Error ''ACT3_BAD_VERSION'') \<longleftrightarrow> m ! 0 \<noteq> 0"
  by (simp_all add: receiveAct3_def Let_def split: option.split)

section \<open>The handshake\<close>

text \<open>
  C1. When the primitives obey their laws, a handshake between a fresh initiator and a
  fresh responder, the initiator knowing the responder's static public key and each act
  receiving the message the other side produced, completes on both sides. Afterwards the
  initiator's \<open>sk\<close> is the responder's \<open>rk\<close> and the initiator's \<open>rk\<close> is the responder's
  \<open>sk\<close>: both sides hold the same chaining key \<open>k\<close>, the initiator takes \<open>sk\<close> from the
  first 32 bytes of \<open>hkdf(k, empty)\<close> and \<open>rk\<close> from the rest, the responder the other
  way round.
\<close>

theorem handshake_keys_agree:
  assumes ok: "crypto_ok cr"
  shows "\<exists>m1 I1 R1 m2 R2 I2 m3 I3 R3 k.
     initiatorAct1 cr (getPublicKey cr lsR) (new_NoiseState cr lsI esI) = (Inr m1, I1) \<and>
     receiveAct1 cr m1 (new_NoiseState cr lsR esR) = (Inr (), R1) \<and>
     recieveAct2 cr R1 = (Inr m2, R2) \<and>
     initiatorAct2 cr m2 I1 = (Inr (), I2) \<and>
     initiatorAct3 cr I2 = (Inr m3, I3) \<and>
     receiveAct3 cr m3 R2 = (Inr (), R3) \<and>
     sk I3 = rk R3 \<and> rk I3 = sk R3 \<and>
     ck I3 = Some k \<and> ck R3 = Some k \<and>
     sk I3 = Some (take 32 (hkdf cr k (alloc 0))) \<and>
     rk I3 = Some (drop 32 (hkdf cr k (alloc 0))) \<and>
     rk R3 = Some (take 32 (hkdf cr k (alloc 0))) \<and>
     sk R3 = Some (drop 32 (hkdf cr k (alloc 0)))"
proof -
  have dh: "\<And>a b. \<exists>ss. ecdh cr (getPublicKey cr a) b = Some ss \<and>
                   ecdh cr (getPublicKey cr b) a = Some ss"
    and aead: "\<And>k n ad pt. ccpDecrypt cr k n ad (ccpEncrypt cr k n ad pt) = Some pt"
    and len: "\<And>k n ad pt. length (ccpEncrypt cr k n ad pt) = length pt + 16"
    and pk: "\<And>a. length (getPublicKey cr a) = 33"
    using ok unfolding crypto_ok_def by blast+
  obtain ss1 where ss1: "ecdh cr (getPublicKey cr lsR) esI = Some ss1"
    "ecdh cr (getPublicKey cr esI) lsR = Some ss1"
    using dh[of lsR esI] by blast
  obtain ss2 where ss2: "ecdh cr (getPublicKey cr esI) esR = Some ss2"
    "ecdh cr (getPublicKey cr esR) esI = Some ss2"
    using dh[of esI esR] by blast
  obtain ss3 where ss3: "ecdh cr (getPublicKey cr esR) lsI = Some ss3"
    "ecdh cr (getPublicKey cr lsI) esR = Some ss3"
    using dh[of esR lsI] by blast
  define I0 where "I0 = new_NoiseState cr lsI esI"
  define R0 where "R0 = new_NoiseState cr lsR esR"
  have I0: "ls I0 = lsI" "lpk I0 = getPublicKey cr lsI" "es I0 = esI"
    "epk I0 = getPublicKey cr esI"
    and R0: "ls R0 = lsR" "lpk R0 = getPublicKey cr lsR" "es R0 = esR"
    "epk R0 = getPublicKey cr esR"
    by (simp_all add: I0_def R0_def new_NoiseState_def)
  \<comment> \<open>act 1\<close>
  define h1 where "h1 = sha256 cr (sha256 cr (sha256 cr (sha256 cr protocolName @ prologue)
    @ getPublicKey cr lsR) @ getPublicKey cr esI)"
  define t1 where "t1 = hkdf cr (sha256 cr protocolName) ss1"
  define c1 where "c1 = ccpEncrypt cr (drop 32 t1) (alloc 12) h1 (alloc 0)"
  define m1 where "m1 = alloc 1 @ getPublicKey cr esI @ c1"
  define I1 where "I1 = snd (initiatorAct1 cr (getPublicKey cr lsR) I0)"
  have I1: "initiatorAct1 cr (getPublicKey cr lsR) I0 = (Inr m1, I1)"
    "h I1 = Some (sha256 cr (h1 @ c1))" "ck I1 = Some (take 32 t1)"
    "ls I1 = lsI" "lpk I1 = getPublicKey cr lsI" "es I1 = esI" "epk I1 = getPublicKey cr esI"
    unfolding I1_def m1_def c1_def t1_def h1_def initiatorAct1_def
    by (simp_all add: Let_def I0 ss1)
  have lm1: "length m1 = 50" "m1 ! 0 = 0" "buffer_slice (Suc 0) 34 m1 = getPublicKey cr esI"
    "drop 34 m1 = c1"
    unfolding m1_def using act_msg[OF pk, of esI c1] by (simp_all add: len pk c1_def)
  define R1 where "R1 = snd (receiveAct1 cr m1 R0)"
  have R1: "receiveAct1 cr m1 R0 = (Inr (), R1)"
    "h R1 = Some (sha256 cr (h1 @ c1))" "ck R1 = Some (take 32 t1)"
    "repk R1 = Some (getPublicKey cr esI)"
    "ls R1 = lsR" "lpk R1 = getPublicKey cr lsR" "es R1 = esR" "epk R1 = getPublicKey cr esR"
    unfolding R1_def receiveAct1_def
    by (simp_all add: Let_def R0 lm1 ss1 t1_def[symmetric] h1_def[symmetric]
        c1_def aead)
  \<comment> \<open>act 2\<close>
  define h3 where "h3 = sha256 cr (sha256 cr (h1 @ c1) @ getPublicKey cr esR)"
  define t2 where "t2 = hkdf cr (take 32 t1) ss2"
  define c2 where "c2 = ccpEncrypt cr (drop 32 t2) (alloc 12) h3 (alloc 0)"
  define m2 where "m2 = alloc 1 @ getPublicKey cr esR @ c2"
  define R2 where "R2 = snd (recieveAct2 cr R1)"
  have R2: "recieveAct2 cr R1 = (Inr m2, R2)"
    "h R2 = Some (sha256 cr (h3 @ c2))" "ck R2 = Some (take 32 t2)"
    "tempK2 R2 = Some (drop 32 t2)"
    "ls R2 = lsR" "lpk R2 = getPublicKey cr lsR" "es R2 = esR" "epk R2 = getPublicKey cr esR"
    unfolding R2_def m2_def c2_def t2_def h3_def recieveAct2_def
    by (simp_all add: Let_def R1 ss2)
  have lm2: "length m2 = 50" "m2 ! 0 = 0" "buffer_slice (Suc 0) 34 m2 = getPublicKey cr esR"
    "drop 34 m2 = c2"
    unfolding m2_def using act_msg[OF pk, of esR c2] by (simp_all add: len pk c2_def)
  define I2 where "I2 = snd (initiatorAct2 cr m2 I1)"
  have I2: "initiatorAct2 cr m2 I1 = (Inr (), I2)"
    "h I2 = Some (sha256 cr (h3 @ c2))" "ck I2 = Some (take 32 t2)"
    "tempK2 I2 = Some (drop 32 t2)" "repk I2 = Some (getPublicKey cr esR)"
    "ls I2 = lsI" "lpk I2 = getPublicKey cr lsI" "es I2 = esI" "epk I2 = getPublicKey cr esI"
    unfolding I2_def initiatorAct2_def
    by (simp_all add: Let_def I1 lm2 ss2 t2_def[symmetric] h3_def[symmetric]
        c2_def aead)
  \<comment> \<open>act 3\<close>
  define h4 where "h4 = sha256 cr (h3 @ c2)"
  define c3 where "c3 = ccpEncrypt cr (drop 32 t2) [0, 0, 0, 0, 1, 0, 0, 0, 0, 0, 0, 0] h4
    (getPublicKey cr lsI)"
  define h5 where "h5 = sha256 cr (h4 @ c3)"
  define t3 where "t3 = hkdf cr (take 32 t2) ss3"
  define t where "t = ccpEncrypt cr (drop 32 t3) (alloc 12) h5 (alloc 0)"
  define m3 where "m3 = alloc 1 @ c3 @ t"
  define keys where "keys = hkdf cr (take 32 t3) (alloc 0)"
  define I3 where "I3 = snd (initiatorAct3 cr I2)"
  have I3: "initiatorAct3 cr I2 = (Inr m3, I3)"
    "ck I3 = Some (take 32 t3)" "sk I3 = Some (take 32 keys)" "rk I3 = Some (drop 32 keys)"
    unfolding I3_def m3_def t_def t3_def h5_def c3_def h4_def keys_def initiatorAct3_def
    by (simp_all add: Let_def I2 ss3)
  have lc3: "length c3 = 49"
    by (simp add: c3_def len pk)
  have lm3: "length m3 = 66" "m3 ! 0 = 0" "buffer_slice (Suc 0) 50 m3 = c3" "drop 50 m3 = t"
    unfolding m3_def using act_msg[OF lc3, of t] by (simp_all add: len lc3 t_def)
  have dec3: "ccpDecrypt cr (drop 32 t2) [0, 0, 0, 0, 1, 0, 0, 0, 0, 0, 0, 0] h4 c3
      = Some (getPublicKey cr lsI)"
    and dect: "ccpDecrypt cr (drop 32 t3) (alloc 12) h5 t = Some (alloc 0)"
    by (simp_all only: c3_def t_def aead)
  define R3 where "R3 = snd (receiveAct3 cr m3 R2)"
  have R3: "receiveAct3 cr m3 R2 = (Inr (), R3)"
    "ck R3 = Some (take 32 t3)" "rk R3 = Some (take 32 keys)" "sk R3 = Some (drop 32 keys)"
    unfolding R3_def receiveAct3_def
    by (simp_all add: Let_def R2 lm3 h4_def[symmetric] dec3 ss3 t3_def[symmetric]
        h5_def[symmetric] dect keys_def)
  have "initiatorAct1 cr (getPublicKey cr lsR) (new_NoiseState cr lsI esI) = (Inr m1, I1)"
    "receiveAct1 cr m1 (new_NoiseState cr lsR esR) = (Inr (), R1)"
    using I1(1) R1(1) by (simp_all only: I0_def R0_def)
  moreover note R2(1) I2(1) I3(1) R3(1)
  moreover have "sk I3 = rk R3" "rk I3 = sk R3"
    by (simp_all only: I3 R3)
  moreover note I3(2) R3(2) I3(3,4)[unfolded keys_def] R3(3,4)[unfolded keys_def]
  ultimately show ?thesis
    by (intro exI conjI)
qed

theorem handshake_keys_agree_witness:
  "\<exists>m1 I1 R1 m2 R2 I2 m3 I3 R3 k.
     initiatorAct1 toy_crypto (getPublicKey toy_crypto (replicate 32 33))
       (new_NoiseState toy_crypto (replicate 32 17) (replicate 32 18)) = (Inr m1, I1) \<and>
     receiveAct1 toy_crypto m1
       (new_NoiseState toy_crypto (replicate 32 33) (replicate 32 34)) = (Inr (), R1) \<and>
     recieveAct2 toy_crypto R1 = (Inr m2, R2) \<and>
     initiatorAct2 toy_crypto m2 I1 = (Inr (), I2) \<and>
     initiatorAct3 toy_crypto I2 = (Inr m3, I3) \<and>
     receiveAct3 toy_crypto m3 R2 = (Inr (), R3) \<and>
     sk I3 = rk R3 \<and> rk I3 = sk R3 \<and>
     ck I3 = Some k \<and> ck R3 = Some k \<and>
     sk I3 = Some (take 32 (hkdf toy_crypto k (alloc 0))) \<and>
     rk I3 = Some (drop 32 (hkdf toy_crypto k (alloc 0))) \<and>
     rk R3 = Some (take 32 (hkdf toy_crypto k (alloc 0))) \<and>
     sk R3 = Some (drop 32 (hkdf toy_crypto k (alloc 0)))"
  by (rule handshake_keys_agree [OF toy_crypto_ok])

text \<open>
  C2 (as stated, refuted). After \<open>_initialize\<close> the fields \<open>ck\<close> and \<open>h\<close> are not equal:
  \<open>ck\<close> keeps the hash of the protocol name, \<open>h\<close> goes on to absorb the prologue and the
  public key.
\<close>

theorem initialize_ck_h_differ:
  "ck (initialize toy_crypto (getPublicKey toy_crypto (replicate 32 33)) toy_initiator)
     \<noteq> h (initialize toy_crypto (getPublicKey toy_crypto (replicate 32 33)) toy_initiator)"
  by (simp add: toy_crypto_def toy_digest_def protocolName_def prologue_def from_string_def)

text \<open>
  C2 (amended). For every public key, after \<open>_initialize(pubkey)\<close> the field \<open>h\<close> is
  \<open>sha256(sha256(sha256(protocolName) || prologue) || pubkey)\<close> and the field \<open>ck\<close> is
  \<open>sha256(protocolName)\<close>.
\<close>

theorem initialize_result:
  "h (initialize cr pubkey s)
     = Some (sha256 cr (sha256 cr (sha256 cr protocolName @ prologue) @ pubkey)) \<and>
   ck (initialize cr pubkey s) = Some (sha256 cr protocolName)"
  by (simp add: initialize_def Let_def)

text \<open>
  C5 (as stated, refuted). A second call of \<open>initiatorAct1\<close> on the same object, with the
  static public key of the responder, is out of the initiator's sequence and returns a
  message like the first: it does not fail.
\<close>

theorem repeated_act1_proceeds:
  "\<not> isl (fst (initiatorAct1 toy_crypto (lpk toy_responder)
       (snd (initiatorAct1 toy_crypto (lpk toy_responder) toy_initiator))))"
proof -
  have p: "lpk toy_responder = getPublicKey toy_crypto (replicate 32 33)"
    by (simp add: toy_responder_def new_NoiseState_def)
  have "es (snd (initiatorAct1 toy_crypto (lpk toy_responder) toy_initiator)) = es toy_initiator"
    unfolding p by (rule initiatorAct1_returns(2) [OF toy_ecdh_derived])
  then show ?thesis
    unfolding p by (intro initiatorAct1_returns(1)) (simp add: toy_ecdh_derived)
qed

text \<open>
  C5 (amended). The class keeps no record of the phase of the handshake and no act checks
  one: no act method, in any state and on any input, fails with \<open>OUT_OF_SEQUENCE\<close>.
\<close>

theorem no_sequence_check:
  "fst (initiatorAct1 cr p s) \<noteq> Inl (Error ''OUT_OF_SEQUENCE'') \<and>
   fst (initiatorAct2 cr m s) \<noteq> Inl (Error ''OUT_OF_SEQUENCE'') \<and>
   fst (initiatorAct3 cr s) \<noteq> Inl (Error ''OUT_OF_SEQUENCE'') \<and>
   fst (receiveAct1 cr m s) \<noteq> Inl (Error ''OUT_OF_SEQUENCE'') \<and>
   fst (recieveAct2 cr s) \<noteq> Inl (Error ''OUT_OF_SEQUENCE'') \<and>
   fst (receiveAct3 cr m s) \<noteq> Inl (Error ''OUT_OF_SEQUENCE'')"
  by (intro conjI) (rule acts_not_out_of_sequence)+

text \<open>
  C8. \<open>receiveAct1\<close> and \<open>initiatorAct2\<close> fail with \<open>ACT1_READ_FAILED\<close> and
  \<open>ACT2_READ_FAILED\<close> exactly when the message is not 50 bytes long, \<open>receiveAct3\<close> with
  \<open>ACT3_READ_FAILED\<close> exactly when it is not 66 bytes long; on a message of the right
  length each fails with its \<open>BAD_VERSION\<close> error exactly when the first byte is not 0.
\<close>

theorem act_errors:
  "(fst (receiveAct1 cr m s) = Inl (Error ''ACT1_READ_FAILED'') \<longleftrightarrow> length m \<noteq> 50) \<and>
   (fst (initiatorAct2 cr m s) = Inl (Error ''ACT2_READ_FAILED'') \<longleftrightarrow> length m \<noteq> 50) \<and>
   (fst (receiveAct3 cr m3 s) = Inl (Error ''ACT3_READ_FAILED'') \<longleftrightarrow> length m3 \<noteq> 66) \<and>
   (length m = 50 \<longrightarrow>
      (fst (receiveAct1 cr m s) = Inl (Error ''ACT1_BAD_VERSION'') \<longleftrightarrow> m ! 0 \<noteq> 0)) \<and>
   (length m = 50 \<longrightarrow>
      (fst (initiatorAct2 cr m s) = Inl (Error ''ACT2_BAD_VERSION'') \<longleftrightarrow> m ! 0 \<noteq> 0)) \<and>
   (length m3 = 66 \<longrightarrow>
      (fst (receiveAct3 cr m3 s) = Inl (Error ''ACT3_BAD_VERSION'') \<longleftrightarrow> m3 ! 0 \<noteq> 0))"
  using receiveAct1_errors [where cr = cr and m = m and s = s]
    initiatorAct2_errors [where cr = cr and m = m and s = s]
    receiveAct3_errors [where cr = cr and m = m3 and s = s]
  by blast

theorem act_errors_witness:
  "fst (receiveAct1 toy_crypto (1 # replicate 49 0) toy_responder)
     = Inl (Error ''ACT1_BAD_VERSION'') \<and>
   fst (initiatorAct2 toy_crypto (1 # replicate 49 0) toy_initiator)
     = Inl (Error ''ACT2_BAD_VERSION'') \<and>
   fst (receiveAct3 toy_crypto (1 # replicate 65 0) toy_responder)
     = Inl (Error ''ACT3_BAD_VERSION'') \<and>
   fst (receiveAct1 toy_crypto (1 # replicate 49 0) toy_responder)
     \<noteq> Inl (Error ''ACT1_READ_FAILED'') \<and>
   fst (initiatorAct2 toy_crypto (1 # replicate 49 0) toy_initiator)
     \<noteq> Inl (Error ''ACT2_READ_FAILED'') \<and>
   fst (receiveAct3 toy_crypto (1 # replicate 65 0) toy_responder)
     \<noteq> Inl (Error ''ACT3_READ_FAILED'')"
  using act_errors [of toy_crypto "1 # replicate 49 0" toy_responder "1 # replicate 65 0"]
    act_errors [of toy_crypto "1 # replicate 49 0" toy_initiator "1 # replicate 65 0"]
  by simp

text \<open>
  C10. On a 50-byte message whose first byte is not 0, \<open>receiveAct1\<close> throws
  \<open>ACT1_BAD_VERSION\<close> with \<open>h\<close> and \<open>ck\<close> reinitialised and \<open>repk\<close> set to bytes 1 to 33
  of the message, and \<open>initiatorAct2\<close> throws \<open>ACT2_BAD_VERSION\<close> with \<open>repk\<close> set
  likewise: the object is changed although the call fails.
\<close>

theorem bad_version_after_mutation:
  "length m = 50 \<and> m ! 0 \<noteq> 0 \<longrightarrow>
     receiveAct1 cr m s =
       (Inl (Error ''ACT1_BAD_VERSION''),
        s\<lparr>h := Some (sha256 cr (sha256 cr (sha256 cr protocolName @ prologue) @ lpk s)),
          ck := Some (sha256 cr protocolName),
          repk := Some (buffer_slice 1 34 m)\<rparr>) \<and>
     initiatorAct2 cr m s =
       (Inl (Error ''ACT2_BAD_VERSION''), s\<lparr>repk := Some (buffer_slice 1 34 m)\<rparr>)"
  by (simp add: receiveAct1_def initiatorAct2_def initialize_def Let_def)

theorem bad_version_after_mutation_witness:
  "receiveAct1 toy_crypto (1 # replicate 49 0) toy_responder =
       (Inl (Error ''ACT1_BAD_VERSION''),
        toy_responder
          \<lparr>h := Some (sha256 toy_crypto
             (sha256 toy_crypto (sha256 toy_crypto protocolName @ prologue) @ lpk toy_responder)),
          ck := Some (sha256 toy_crypto protocolName),
          repk := Some (buffer_slice 1 34 (1 # replicate 49 0))\<rparr>) \<and>
     initiatorAct2 toy_crypto (1 # replicate 49 0) toy_initiator =
       (Inl (Error ''ACT2_BAD_VERSION''),
        toy_initiator\<lparr>repk := Some (buffer_slice 1 34 (1 # replicate 49 0))\<rparr>) \<and>
   repk (snd (initiatorAct2 toy_crypto (1 # replicate 49 0) toy_initiator))
     = Some (replicate 33 0) \<and>
   repk toy_initiator = None"
proof -
  have "length (1 # replicate 49 (0::byte)) = 50 \<and> (1 # replicate 49 (0::byte)) ! 0 \<noteq> 0"
    by simp
  then show ?thesis
    using bad_version_after_mutation [of "1 # replicate 49 0" toy_crypto toy_responder]
      bad_version_after_mutation [of "1 # replicate 49 0" toy_crypto toy_initiator]
    by (simp add: buffer_slice_def toy_initiator_def new_NoiseState_def)
qed

text \<open>
  C6. The acts call the encryption and the decryption at two nonces only. Acts 1 and 2 of
  both roles behave the same under any two sets of primitives that agree at the zero
  nonce, whatever these do at other nonces. So do \<open>initiatorAct3\<close> and \<open>receiveAct3\<close>,
  once the primitives also agree on one more call each: the encryption, and the
  decryption, of the initiator's static public key under \<open>tempK2\<close>, the handshake hash
  and the nonce \<open>00 00 00 00 01 00 00 00 00 00 00 00\<close>. That call is made: the message of
  \<open>initiatorAct3\<close> carries the static key encrypted at this nonce, followed by a tag made at
  the zero nonce, and \<open>receiveAct3\<close> stores as \<open>rpk\<close> what the decryption at this nonce
  returns.
\<close>

theorem handshake_nonces:
  assumes "agree_at_zero_nonce cr cr'"
  shows
    "initiatorAct1 cr' p s = initiatorAct1 cr p s \<and>
     receiveAct1 cr' m s = receiveAct1 cr m s \<and>
     recieveAct2 cr' s = recieveAct2 cr s \<and>
     initiatorAct2 cr' m s = initiatorAct2 cr m s \<and>
     (tempK2 s = Some k2 \<and> h s = Some h0 \<longrightarrow>
        (ccpEncrypt cr' k2 [0, 0, 0, 0, 1, 0, 0, 0, 0, 0, 0, 0] h0 (lpk s)
           = ccpEncrypt cr k2 [0, 0, 0, 0, 1, 0, 0, 0, 0, 0, 0, 0] h0 (lpk s) \<longrightarrow>
         initiatorAct3 cr' s = initiatorAct3 cr s) \<and>
        (ccpDecrypt cr' k2 [0, 0, 0, 0, 1, 0, 0, 0, 0, 0, 0, 0] h0 (buffer_slice 1 50 m3)
           = ccpDecrypt cr k2 [0, 0, 0, 0, 1, 0, 0, 0, 0, 0, 0, 0] h0 (buffer_slice 1 50 m3) \<longrightarrow>
         receiveAct3 cr' m3 s = receiveAct3 cr m3 s) \<and>
        (repk s = Some re \<and> ck s = Some c0 \<longrightarrow>
         fst (initiatorAct3 cr s) =
           (case ecdh cr re (ls s) of
              None \<Rightarrow> Inl EcdhError
            | Some ss \<Rightarrow>
                Inr (alloc 1 @ ccpEncrypt cr k2 [0, 0, 0, 0, 1, 0, 0, 0, 0, 0, 0, 0] h0 (lpk s)
                     @ ccpEncrypt cr (drop 32 (hkdf cr c0 ss)) (alloc 12)
                         (sha256 cr
                            (h0 @ ccpEncrypt cr k2 [0, 0, 0, 0, 1, 0, 0, 0, 0, 0, 0, 0] h0 (lpk s)))
                         (alloc 0)))) \<and>
        (length m3 = 66 \<and> m3 ! 0 = 0 \<longrightarrow>
         rpk (snd (receiveAct3 cr m3 s)) =
           (case ccpDecrypt cr k2 [0, 0, 0, 0, 1, 0, 0, 0, 0, 0, 0, 0] h0 (buffer_slice 1 50 m3) of
              None \<Rightarrow> rpk s | Some rs \<Rightarrow> Some rs)))"
proof (intro conjI impI)
  show "initiatorAct1 cr' p s = initiatorAct1 cr p s"
    by (rule acts12_zero_nonce(1) [OF assms])
  show "receiveAct1 cr' m s = receiveAct1 cr m s"
    by (rule acts12_zero_nonce(2) [OF assms])
  show "recieveAct2 cr' s = recieveAct2 cr s"
    by (rule acts12_zero_nonce(3) [OF assms])
  show "initiatorAct2 cr' m s = initiatorAct2 cr m s"
    by (rule acts12_zero_nonce(4) [OF assms])
next
  assume a: "tempK2 s = Some k2 \<and> h s = Some h0"
    and b: "ccpEncrypt cr' k2 [0, 0, 0, 0, 1, 0, 0, 0, 0, 0, 0, 0] h0 (lpk s)
           = ccpEncrypt cr k2 [0, 0, 0, 0, 1, 0, 0, 0, 0, 0, 0, 0] h0 (lpk s)"
  show "initiatorAct3 cr' s = initiatorAct3 cr s"
    using a act3_nonces(1) [OF assms _ _ b] by blast
next
  assume a: "tempK2 s = Some k2 \<and> h s = Some h0"
    and b: "ccpDecrypt cr' k2 [0, 0, 0, 0, 1, 0, 0, 0, 0, 0, 0, 0] h0 (buffer_slice 1 50 m3)
           = ccpDecrypt cr k2 [0, 0, 0, 0, 1, 0, 0, 0, 0, 0, 0, 0] h0 (buffer_slice 1 50 m3)"
  show "receiveAct3 cr' m3 s = receiveAct3 cr m3 s"
    using a act3_nonces(2) [OF assms _ _ b] by blast
next
  assume a: "tempK2 s = Some k2 \<and> h s = Some h0" and b: "repk s = Some re \<and> ck s = Some c0"
  from a b show "fst (initiatorAct3 cr s) =
           (case ecdh cr re (ls s) of
              None \<Rightarrow> Inl EcdhError
            | Some ss \<Rightarrow>
                Inr (alloc 1 @ ccpEncrypt cr k2 [0, 0, 0, 0, 1, 0, 0, 0, 0, 0, 0, 0] h0 (lpk s)
                     @ ccpEncrypt cr (drop 32 (hkdf cr c0 ss)) (alloc 12)
                         (sha256 cr
                            (h0 @ ccpEncrypt cr k2 [0, 0, 0, 0, 1, 0, 0, 0, 0, 0, 0, 0] h0 (lpk s)))
                         (alloc 0)))"
    by (intro act3_static_key(1)) simp_all
next
  assume a: "tempK2 s = Some k2 \<and> h s = Some h0" and b: "length m3 = 66 \<and> m3 ! 0 = 0"
  from a b show "rpk (snd (receiveAct3 cr m3 s)) =
           (case ccpDecrypt cr k2 [0, 0, 0, 0, 1, 0, 0, 0, 0, 0, 0, 0] h0 (buffer_slice 1 50 m3) of
              None \<Rightarrow> rpk s | Some rs \<Rightarrow> Some rs)"
    by (intro act3_static_key(2)) simp_all
qed

theorem handshake_nonces_witness:
  "initiatorAct1 toy_crypto_handshake (lpk toy_responder) toy_initiator
     = initiatorAct1 toy_crypto (lpk toy_responder) toy_initiator \<and>
   initiatorAct3 toy_crypto_handshake toy_after_act2 = initiatorAct3 toy_crypto toy_after_act2 \<and>
   receiveAct3 toy_crypto_handshake (alloc 66) toy_after_act2
     = receiveAct3 toy_crypto (alloc 66) toy_after_act2 \<and>
   fst (initiatorAct3 toy_crypto toy_after_act2) =
     (case ecdh toy_crypto (epk toy_responder) (ls toy_after_act2) of
        None \<Rightarrow> Inl EcdhError
      | Some ss \<Rightarrow>
          Inr (alloc 1
               @ ccpEncrypt toy_crypto (replicate 32 5) [0, 0, 0, 0, 1, 0, 0, 0, 0, 0, 0, 0]
                   (replicate 32 4) (lpk toy_after_act2)
               @ ccpEncrypt toy_crypto (drop 32 (hkdf toy_crypto (replicate 32 1) ss))
                   (alloc 12)
                   (sha256 toy_crypto (replicate 32 4
                      @ ccpEncrypt toy_crypto (replicate 32 5)
                          [0, 0, 0, 0, 1, 0, 0, 0, 0, 0, 0, 0]
                          (replicate 32 4) (lpk toy_after_act2)))
                   (alloc 0))) \<and>
   ccpEncrypt toy_crypto_handshake [] (nonce 2) [] []
     \<noteq> ccpEncrypt toy_crypto [] (nonce 2) [] []"
proof -
  have s: "tempK2 toy_after_act2 = Some (replicate 32 5) \<and> h toy_after_act2 = Some (replicate 32 4)"
    "repk toy_after_act2 = Some (epk toy_responder) \<and> ck toy_after_act2 = Some (replicate 32 1)"
    by (simp_all add: toy_after_act2_def)
  have e: "ccpEncrypt toy_crypto_handshake k [0, 0, 0, 0, 1, 0, 0, 0, 0, 0, 0, 0] ad x
      = ccpEncrypt toy_crypto k [0, 0, 0, 0, 1, 0, 0, 0, 0, 0, 0, 0] ad x"
    "ccpDecrypt toy_crypto_handshake k [0, 0, 0, 0, 1, 0, 0, 0, 0, 0, 0, 0] ad x
      = ccpDecrypt toy_crypto k [0, 0, 0, 0, 1, 0, 0, 0, 0, 0, 0, 0] ad x" for k ad x
    by (simp_all add: toy_crypto_handshake_def)
  show ?thesis
    using handshake_nonces [OF toy_crypto_handshake_agrees, of "lpk toy_responder" toy_initiator]
      handshake_nonces [OF toy_crypto_handshake_agrees, of _ toy_after_act2 _ "replicate 32 5"
        "replicate 32 4" "alloc 66" "epk toy_responder" "replicate 32 1"]
      s e toy_crypto_handshake_differs
    by blast
qed

section \<open>The transport\<close>

text \<open>
  C3. An increment reads bytes 4 and 5 of the nonce as a little-endian 16-bit number, adds
  1 and writes it back, and returns the new value. On an object whose nonce holds the
  counter \<open>i\<close>, \<open>encryptMessage\<close> uses the sending key twice and \<open>decryptLength\<close> and
  \<open>decryptMessage\<close> use the receiving key once, each use as \<open>use_key\<close> has it: the call
  of the primitive takes the key and the counter of before the use, and the key is rotated
  and the nonce reset to twelve zero bytes exactly when the incremented counter is at
  least 1000. From counter 0, after \<open>u\<close> uses the counter is \<open>u mod 1000\<close> and the key has
  been rotated \<open>u div 1000\<close> times: the rotation falls on the 1000th use, made with counter
  999, and the next use has the new key and counter 0.
\<close>

theorem nonce_and_rotation:
  assumes "ck s = Some c" and "i < 65535"
  shows
    "(sn s = Some n \<and> 6 \<le> length n \<and> unat (n ! 4) + 256 * unat (n ! 5) = i \<longrightarrow>
        incrementSendingNonce s =
          (Inr (i + 1),
           s\<lparr>sn := Some (n[4 := of_nat ((i + 1) mod 256), 5 := of_nat ((i + 1) div 256)])\<rparr>)) \<and>
     (rn s = Some n \<and> 6 \<le> length n \<and> unat (n ! 4) + 256 * unat (n ! 5) = i \<longrightarrow>
        incrementRecievingNonce s =
          (Inr (i + 1),
           s\<lparr>rn := Some (n[4 := of_nat ((i + 1) mod 256), 5 := of_nat ((i + 1) div 256)])\<rparr>)) \<and>
     (sk s = Some k \<and> sn s = Some (nonce i) \<and> length m \<le> 65535 \<longrightarrow>
        encryptMessage cr m s =
          (Inr (ccpEncrypt cr k (nonce i) []
                  [of_nat (length m div 256), of_nat (length m mod 256)]
                @ ccpEncrypt cr (fst (snd (use_key cr (c, k, i))))
                    (nonce (snd (snd (use_key cr (c, k, i))))) [] m),
           s\<lparr>ck := Some (fst (use_key cr (use_key cr (c, k, i)))),
             sk := Some (fst (snd (use_key cr (use_key cr (c, k, i))))),
             sn := Some (nonce (snd (snd (use_key cr (use_key cr (c, k, i))))))\<rparr>)) \<and>
     (rk s = Some k \<and> rn s = Some (nonce i) \<and>
      ccpDecrypt cr k (nonce i) [] ct = Some [b1, b0] \<longrightarrow>
        decryptLength cr ct s =
          (Inr (256 * unat b1 + unat b0),
           s\<lparr>ck := Some (fst (use_key cr (c, k, i))),
             rk := Some (fst (snd (use_key cr (c, k, i)))),
             rn := Some (nonce (snd (snd (use_key cr (c, k, i)))))\<rparr>)) \<and>
     (rk s = Some k \<and> rn s = Some (nonce i) \<and> ccpDecrypt cr k (nonce i) [] ct = Some p \<longrightarrow>
        decryptMessage cr ct s =
          (Inr p,
           s\<lparr>ck := Some (fst (use_key cr (c, k, i))),
             rk := Some (fst (snd (use_key cr (c, k, i)))),
             rn := Some (nonce (snd (snd (use_key cr (c, k, i)))))\<rparr>)) \<and>
     use_key cr (c, k, i) =
       (if 1000 \<le> i + 1 then (take 32 (hkdf cr c k), drop 32 (hkdf cr c k), 0)
        else (c, k, i + 1)) \<and>
     (use_key cr ^^ u) (c, k, 0) =
       (fst ((rotate cr ^^ (u div 1000)) (c, k)), snd ((rotate cr ^^ (u div 1000)) (c, k)),
        u mod 1000)"
proof (intro conjI impI)
  assume "sn s = Some n \<and> 6 \<le> length n \<and> unat (n ! 4) + 256 * unat (n ! 5) = i"
  then show "incrementSendingNonce s =
          (Inr (i + 1),
           s\<lparr>sn := Some (n[4 := of_nat ((i + 1) mod 256), 5 := of_nat ((i + 1) div 256)])\<rparr>)"
    using incrementSendingNonce_general[of s n i] assms(2) by blast
next
  assume "rn s = Some n \<and> 6 \<le> length n \<and> unat (n ! 4) + 256 * unat (n ! 5) = i"
  then show "incrementRecievingNonce s =
          (Inr (i + 1),
           s\<lparr>rn := Some (n[4 := of_nat ((i + 1) mod 256), 5 := of_nat ((i + 1) div 256)])\<rparr>)"
    using incrementRecievingNonce_general[of s n i] assms(2) by blast
next
  assume "sk s = Some k \<and> sn s = Some (nonce i) \<and> length m \<le> 65535"
  then show "encryptMessage cr m s =
          (Inr (ccpEncrypt cr k (nonce i) []
                  [of_nat (length m div 256), of_nat (length m mod 256)]
                @ ccpEncrypt cr (fst (snd (use_key cr (c, k, i))))
                    (nonce (snd (snd (use_key cr (c, k, i))))) [] m),
           s\<lparr>ck := Some (fst (use_key cr (use_key cr (c, k, i)))),
             sk := Some (fst (snd (use_key cr (use_key cr (c, k, i))))),
             sn := Some (nonce (snd (snd (use_key cr (use_key cr (c, k, i))))))\<rparr>)"
    using encryptMessage_eq[OF assms(1) _ _ assms(2)] by blast
next
  assume "rk s = Some k \<and> rn s = Some (nonce i) \<and> ccpDecrypt cr k (nonce i) [] ct = Some [b1, b0]"
  then show "decryptLength cr ct s =
          (Inr (256 * unat b1 + unat b0),
           s\<lparr>ck := Some (fst (use_key cr (c, k, i))),
             rk := Some (fst (snd (use_key cr (c, k, i)))),
             rn := Some (nonce (snd (snd (use_key cr (c, k, i)))))\<rparr>)"
    using decryptLength_eq[OF assms(1) _ _ assms(2)] by blast
next
  assume "rk s = Some k \<and> rn s = Some (nonce i) \<and> ccpDecrypt cr k (nonce i) [] ct = Some p"
  then show "decryptMessage cr ct s =
          (Inr p,
           s\<lparr>ck := Some (fst (use_key cr (c, k, i))),
             rk := Some (fst (snd (use_key cr (c, k, i)))),
             rn := Some (nonce (snd (snd (use_key cr (c, k, i)))))\<rparr>)"
    using decryptMessage_eq[OF assms(1) _ _ assms(2)] by blast
next
  show "use_key cr (c, k, i) =
       (if 1000 \<le> i + 1 then (take 32 (hkdf cr c k), drop 32 (hkdf cr c k), 0)
        else (c, k, i + 1))"
    by (simp add: use_key_def)
next
  show "(use_key cr ^^ u) (c, k, 0) =
       (fst ((rotate cr ^^ (u div 1000)) (c, k)), snd ((rotate cr ^^ (u div 1000)) (c, k)),
        u mod 1000)"
    by (rule use_key_iterate)
qed

theorem nonce_and_rotation_witness:
  "incrementSendingNonce (toy_transport 998 999)
     = (Inr 999, (toy_transport 998 999)\<lparr>sn := Some ((nonce 998)[4 := 231, 5 := 3])\<rparr>) \<and>
   snd (encryptMessage toy_crypto [] (toy_transport 998 999)) =
     (toy_transport 998 999)
       \<lparr>ck := Some (take 32 (hkdf toy_crypto (replicate 32 1) (replicate 32 2))),
        sk := Some (drop 32 (hkdf toy_crypto (replicate 32 1) (replicate 32 2))),
        sn := Some (nonce 0)\<rparr> \<and>
   decryptMessage toy_crypto (ccpEncrypt toy_crypto (replicate 32 3) (nonce 999) [] [7])
       (toy_transport 998 999) =
     (Inr [7],
      (toy_transport 998 999)
       \<lparr>ck := Some (take 32 (hkdf toy_crypto (replicate 32 1) (replicate 32 3))),
        rk := Some (drop 32 (hkdf toy_crypto (replicate 32 1) (replicate 32 3))),
        rn := Some (nonce 0)\<rparr>)"
proof -
  have dec: "ccpDecrypt toy_crypto (replicate 32 3) (nonce 999) []
      (ccpEncrypt toy_crypto (replicate 32 3) (nonce 999) [] [7]) = Some [7]"
    using toy_aead_ok unfolding aead_ok_def by blast
  have c: "ck (toy_transport 998 999) = Some (replicate 32 1)"
    by simp
  have rd: "unat (nonce 998 ! 4) + 256 * unat (nonce 998 ! 5) = 998"
    by (simp add: nonce_def)
  show ?thesis
    using nonce_and_rotation [OF c, of 998 "nonce 998" "replicate 32 2" "[]" toy_crypto]
      nonce_and_rotation [OF c, of 999 _ "replicate 32 3" _ toy_crypto
        "ccpEncrypt toy_crypto (replicate 32 3) (nonce 999) [] [7]" _ _ "[7]"]
      dec rd
    by (simp add: use_key_def)
qed

text \<open>
  C4. A sender in the transport phase encrypts a message of at most 65535 bytes; a
  receiver whose \<open>rk\<close> and \<open>rn\<close> are the sender's \<open>sk\<close> and \<open>sn\<close> of before the call gets
  the length of the message from \<open>decryptLength\<close> on the first 18 bytes of the frame and
  the message from \<open>decryptMessage\<close> on the rest.
\<close>

theorem transport_round_trip:
  assumes "aead_ok cr"
    and "transport_reach cr s0 S" "sn s0 = Some (alloc 12)" "sk s0 \<noteq> None" "ck s0 \<noteq> None"
    and "rk R = sk S" "rn R = sn S" "ck R \<noteq> None"
    and "length m \<le> 65535"
  shows "\<exists>frame S' R' R''.
     encryptMessage cr m S = (Inr frame, S') \<and>
     decryptLength cr (take 18 frame) R = (Inr (length m), R') \<and>
     decryptMessage cr (drop 18 frame) R' = (Inr m, R'')"
proof -
  have aead: "\<And>k n ad pt. ccpDecrypt cr k n ad (ccpEncrypt cr k n ad pt) = Some pt"
    and len: "\<And>k n ad pt. length (ccpEncrypt cr k n ad pt) = length pt + 16"
    using assms(1) unfolding aead_ok_def by blast+
  obtain i k c where s: "sn S = Some (nonce i)" "i < 999" "sk S = Some k" "ck S = Some c"
    using sending_counter_even[OF assms(2-5)] by auto
  obtain c' where r: "ck R = Some c'" "rk R = Some k" "rn R = Some (nonce i)"
    using assms(6-8) s by auto
  have i: "i < 65535" "i + 1 < 65535" using s(2) by simp_all
  have u1: "use_key cr (c, k, i) = (c, k, i + 1)" "use_key cr (c', k, i) = (c', k, i + 1)"
    using s(2) by (simp_all add: use_key_def)
  define l :: bytes where "l = [of_nat (length m div 256), of_nat (length m mod 256)]"
  define lc where "lc = ccpEncrypt cr k (nonce i) [] l"
  define ct where "ct = ccpEncrypt cr k (nonce (i + 1)) [] m"
  have llc: "length lc = 18"
    by (simp add: lc_def l_def len)
  have enc: "encryptMessage cr m S = (Inr (lc @ ct), snd (encryptMessage cr m S))"
    by (simp add: encryptMessage_eq[OF s(4,3,1) i(1) assms(9)] u1 lc_def ct_def l_def)
  define R' where "R' = R\<lparr>ck := Some c', rk := Some k, rn := Some (nonce (i + 1))\<rparr>"
  have "ccpDecrypt cr k (nonce i) [] lc = Some [of_nat (length m div 256), of_nat (length m mod 256)]"
    by (simp add: lc_def l_def aead)
  from decryptLength_eq[OF r i(1) this]
  have dl: "decryptLength cr lc R = (Inr (length m), R')"
    by (simp add: u1 len_bytes[OF assms(9)] R'_def)
  have r': "ck R' = Some c'" "rk R' = Some k" "rn R' = Some (nonce (i + 1))"
    by (simp_all add: R'_def)
  have "ccpDecrypt cr k (nonce (i + 1)) [] ct = Some m"
    by (simp add: ct_def aead)
  from decryptMessage_eq[OF r' i(2) this]
  have dm: "decryptMessage cr ct R' = (Inr m, snd (decryptMessage cr ct R'))"
    by simp
  show ?thesis
    apply (rule exI[of _ "lc @ ct"], rule exI[of _ "snd (encryptMessage cr m S)"],
        rule exI[of _ R'], rule exI[of _ "snd (decryptMessage cr ct R')"])
    using enc dl dm llc by simp
qed

theorem transport_round_trip_witness:
  "\<exists>frame S' R' R''.
     encryptMessage toy_crypto [104, 101, 108, 108, 111] (toy_transport 0 0) = (Inr frame, S') \<and>
     decryptLength toy_crypto (take 18 frame) (toy_peer 0 0) = (Inr 5, R') \<and>
     decryptMessage toy_crypto (drop 18 frame) R' = (Inr [104, 101, 108, 108, 111], R'')"
proof -
  have "length [104, 101, 108, 108, 111 :: byte] = 5"
    by simp
  moreover have "\<exists>frame S' R' R''.
     encryptMessage toy_crypto [104, 101, 108, 108, 111] (toy_transport 0 0) = (Inr frame, S') \<and>
     decryptLength toy_crypto (take 18 frame) (toy_peer 0 0)
       = (Inr (length [104, 101, 108, 108, 111 :: byte]), R') \<and>
     decryptMessage toy_crypto (drop 18 frame) R' = (Inr [104, 101, 108, 108, 111], R'')"
    by (rule transport_round_trip [OF toy_aead_ok transport_reach.start])
      (simp_all add: nonce_0)
  ultimately show ?thesis
    by (simp only:)
qed

text \<open>
  C7. In the transport phase \<open>encryptMessage\<close> on a message of at most 65535 bytes
  returns \<open>lc || c\<close>: \<open>lc\<close>, 18 bytes, encrypts the two-byte big-endian length under \<open>sk\<close>
  and the nonce of before the call, with empty associated data; \<open>c\<close>, 16 bytes longer than
  the message, encrypts the message under the next nonce. The frame is 34 bytes longer
  than the message, and 34 bytes long when the message is empty.
\<close>

theorem encryptMessage_frame:
  assumes "aead_ok cr"
    and "transport_reach cr s0 s" "sn s0 = Some (alloc 12)" "sk s0 \<noteq> None" "ck s0 \<noteq> None"
    and "length m \<le> 65535"
  shows "\<exists>k i lc c s'.
     sk s = Some k \<and> sn s = Some (nonce i) \<and>
     encryptMessage cr m s = (Inr (lc @ c), s') \<and>
     lc = ccpEncrypt cr k (nonce i) (alloc 0)
            [of_nat (length m div 256), of_nat (length m mod 256)] \<and>
     length lc = 18 \<and>
     c = ccpEncrypt cr k (nonce (i + 1)) (alloc 0) m \<and>
     length c = length m + 16 \<and>
     length (lc @ c) = length m + 34"
proof -
  have len: "\<And>k n ad pt. length (ccpEncrypt cr k n ad pt) = length pt + 16"
    using assms(1) unfolding aead_ok_def by blast
  obtain i k c where s: "sn s = Some (nonce i)" "i < 999" "sk s = Some k" "ck s = Some c"
    using sending_counter_even[OF assms(2-5)] by auto
  have i: "i < 65535" using s(2) by simp
  have u1: "use_key cr (c, k, i) = (c, k, i + 1)"
    using s(2) by (simp add: use_key_def)
  show ?thesis
    apply (rule exI[of _ k], rule exI[of _ i])
    using s(1,3) by (simp add: encryptMessage_eq[OF s(4,3,1) i assms(6)] u1 len)
qed

theorem encryptMessage_frame_witness:
  "\<exists>lc c s'. encryptMessage toy_crypto [] (toy_transport 0 0) = (Inr (lc @ c), s') \<and>
     length lc = 18 \<and> length c = 16 \<and> length (lc @ c) = 34"
  using encryptMessage_frame [OF toy_aead_ok transport_reach.start, of "toy_transport 0 0" "[]"]
  by (simp add: nonce_0) blast

text \<open>
  A rotation of one direction leaves the key and the nonce of the other alone, but both
  rotations read and replace the one chaining key \<open>ck\<close>: after a sending rotation, a
  receiving rotation derives \<open>rk\<close> from the chaining key the sending rotation left.
\<close>

lemma rotation_frame:
  "ck s = Some c \<and> sk s = Some k \<and> rk s = Some k' \<longrightarrow>
     rotateSendingKeys cr s =
       (Inr (), s\<lparr>sk := Some (drop 32 (hkdf cr c k)), ck := Some (take 32 (hkdf cr c k)),
                  sn := Some (alloc 12)\<rparr>) \<and>
     rotateRecievingKeys cr s =
       (Inr (), s\<lparr>rk := Some (drop 32 (hkdf cr c k')), ck := Some (take 32 (hkdf cr c k')),
                  rn := Some (alloc 12)\<rparr>) \<and>
     rk (snd (rotateSendingKeys cr s)) = rk s \<and> rn (snd (rotateSendingKeys cr s)) = rn s \<and>
     sk (snd (rotateRecievingKeys cr s)) = sk s \<and> sn (snd (rotateRecievingKeys cr s)) = sn s \<and>
     rk (snd (rotateRecievingKeys cr (snd (rotateSendingKeys cr s))))
       = Some (drop 32 (hkdf cr (take 32 (hkdf cr c k)) k')) \<and>
     sk (snd (rotateSendingKeys cr (snd (rotateRecievingKeys cr s))))
       = Some (drop 32 (hkdf cr (take 32 (hkdf cr c k')) k))"
  by (simp add: rotateSendingKeys_def rotateRecievingKeys_def Let_def)

lemma rotation_frame_instance:
  "rotateSendingKeys toy_crypto (toy_transport 0 0) =
       (Inr (), (toy_transport 0 0)
          \<lparr>sk := Some (drop 32 (hkdf toy_crypto (replicate 32 1) (replicate 32 2))),
           ck := Some (take 32 (hkdf toy_crypto (replicate 32 1) (replicate 32 2))),
           sn := Some (alloc 12)\<rparr>) \<and>
     rotateRecievingKeys toy_crypto (toy_transport 0 0) =
       (Inr (), (toy_transport 0 0)
          \<lparr>rk := Some (drop 32 (hkdf toy_crypto (replicate 32 1) (replicate 32 3))),
           ck := Some (take 32 (hkdf toy_crypto (replicate 32 1) (replicate 32 3))),
           rn := Some (alloc 12)\<rparr>) \<and>
     rk (snd (rotateSendingKeys toy_crypto (toy_transport 0 0))) = rk (toy_transport 0 0) \<and>
     rn (snd (rotateSendingKeys toy_crypto (toy_transport 0 0))) = rn (toy_transport 0 0) \<and>
     sk (snd (rotateRecievingKeys toy_crypto (toy_transport 0 0))) = sk (toy_transport 0 0) \<and>
     sn (snd (rotateRecievingKeys toy_crypto (toy_transport 0 0))) = sn (toy_transport 0 0) \<and>
     rk (snd (rotateRecievingKeys toy_crypto (snd (rotateSendingKeys toy_crypto (toy_transport 0 0)))))
       = Some (drop 32 (hkdf toy_crypto
           (take 32 (hkdf toy_crypto (replicate 32 1) (replicate 32 2))) (replicate 32 3))) \<and>
     sk (snd (rotateSendingKeys toy_crypto (snd (rotateRecievingKeys toy_crypto (toy_transport 0 0)))))
       = Some (drop 32 (hkdf toy_crypto
           (take 32 (hkdf toy_crypto (replicate 32 1) (replicate 32 3))) (replicate 32 2)))"
  by (rule rotation_frame [THEN mp]) simp

text \<open>
  On one state, a receiving rotation after a sending rotation gives another \<open>rk\<close> than the
  receiving rotation alone, and the two orders of a sending and a receiving rotation give
  different \<open>sk\<close>.
\<close>

lemma rotation_order_matters:
  "rk (snd (rotateRecievingKeys toy_crypto
         (snd (rotateSendingKeys toy_crypto (toy_transport 0 0)))))
     \<noteq> rk (snd (rotateRecievingKeys toy_crypto (toy_transport 0 0))) \<and>
   sk (snd (rotateSendingKeys toy_crypto
         (snd (rotateRecievingKeys toy_crypto (toy_transport 0 0)))))
     \<noteq> sk (snd (rotateRecievingKeys toy_crypto
         (snd (rotateSendingKeys toy_crypto (toy_transport 0 0)))))"
proof
  show "rk (snd (rotateRecievingKeys toy_crypto
         (snd (rotateSendingKeys toy_crypto (toy_transport 0 0)))))
     \<noteq> rk (snd (rotateRecievingKeys toy_crypto (toy_transport 0 0)))"
    by code_simp
  show "sk (snd (rotateSendingKeys toy_crypto
         (snd (rotateRecievingKeys toy_crypto (toy_transport 0 0)))))
     \<noteq> sk (snd (rotateRecievingKeys toy_crypto
         (snd (rotateSendingKeys toy_crypto (toy_transport 0 0)))))"
    by code_simp
qed

subsection \<open>Two frames that cross\<close>

text \<open>
  A frame sent or read at counter 998 uses the key at 998 and at 999 and then rotates; a
  frame sent or read at counter 0 uses the key at 0 and at 1. A frame whose length part
  does not decrypt under the receiving key is rejected, the state left as it was.
\<close>

lemma use_key_at:
  "use_key cr (c, k, 998) = (c, k, 999)"
  "use_key cr (c, k, 999) = (take 32 (hkdf cr c k), drop 32 (hkdf cr c k), 0)"
  "use_key cr (c, k, 0) = (c, k, 1)"
  "use_key cr (c, k, Suc 0) = (c, k, 2)"
  by (simp_all add: use_key_def)

lemma encryptMessage_rotating:
  assumes "ck s = Some c" "sk s = Some k" "sn s = Some (nonce 998)" "length m \<le> 65535"
  shows "encryptMessage cr m s =
    (Inr (ccpEncrypt cr k (nonce 998) [] [of_nat (length m div 256), of_nat (length m mod 256)]
          @ ccpEncrypt cr k (nonce 999) [] m),
     s\<lparr>ck := Some (take 32 (hkdf cr c k)), sk := Some (drop 32 (hkdf cr c k)),
       sn := Some (nonce 0)\<rparr>)"
  using encryptMessage_eq [OF assms(1,2,3) _ assms(4), of cr] by (simp add: use_key_at)

lemma encryptMessage_fresh_key:
  assumes "ck s = Some c" "sk s = Some k" "sn s = Some (nonce 0)" "length m \<le> 65535"
  shows "fst (encryptMessage cr m s) =
    Inr (ccpEncrypt cr k (nonce 0) [] [of_nat (length m div 256), of_nat (length m mod 256)]
          @ ccpEncrypt cr k (nonce 1) [] m)"
  using encryptMessage_eq [OF assms(1,2,3) _ assms(4), of cr] by (simp add: use_key_at)

lemma receive_frame_rotating:
  assumes "aead_ok cr" "ck s = Some c" "rk s = Some k" "rn s = Some (nonce 998)"
    and "length m \<le> 65535"
  shows "receive_frame cr
      (ccpEncrypt cr k (nonce 998) [] [of_nat (length m div 256), of_nat (length m mod 256)]
       @ ccpEncrypt cr k (nonce 999) [] m) s =
    (Inr m,
     s\<lparr>ck := Some (take 32 (hkdf cr c k)), rk := Some (drop 32 (hkdf cr c k)),
       rn := Some (nonce 0)\<rparr>)"
proof -
  have aead: "\<And>k n ad pt. ccpDecrypt cr k n ad (ccpEncrypt cr k n ad pt) = Some pt"
    and len: "\<And>k n ad pt. length (ccpEncrypt cr k n ad pt) = length pt + 16"
    using assms(1) unfolding aead_ok_def by blast+
  define s1 where "s1 = s\<lparr>ck := Some c, rk := Some k, rn := Some (nonce 999)\<rparr>"
  have dl: "decryptLength cr
      (ccpEncrypt cr k (nonce 998) [] [of_nat (length m div 256), of_nat (length m mod 256)]) s
      = (Inr (length m), s1)"
    using decryptLength_eq [OF assms(2,3,4) _ aead]
    by (simp add: use_key_at len_bytes [OF assms(5)] s1_def)
  have s1: "ck s1 = Some c" "rk s1 = Some k" "rn s1 = Some (nonce 999)"
    by (simp_all add: s1_def)
  have dm: "decryptMessage cr (ccpEncrypt cr k (nonce 999) [] m) s1 =
      (Inr m, s\<lparr>ck := Some (take 32 (hkdf cr c k)), rk := Some (drop 32 (hkdf cr c k)),
         rn := Some (nonce 0)\<rparr>)"
    using decryptMessage_eq [OF s1 _ aead]
    by (simp add: use_key_at s1_def)
  show ?thesis
    by (simp add: receive_frame_def len dl dm)
qed

lemma receive_frame_fresh_key:
  assumes "aead_ok cr" "ck s = Some c" "rk s = Some k" "rn s = Some (nonce 0)"
    and "length m \<le> 65535"
  shows "fst (receive_frame cr
      (ccpEncrypt cr k (nonce 0) [] [of_nat (length m div 256), of_nat (length m mod 256)]
       @ ccpEncrypt cr k (nonce 1) [] m) s) = Inr m"
proof -
  have aead: "\<And>k n ad pt. ccpDecrypt cr k n ad (ccpEncrypt cr k n ad pt) = Some pt"
    and len: "\<And>k n ad pt. length (ccpEncrypt cr k n ad pt) = length pt + 16"
    using assms(1) unfolding aead_ok_def by blast+
  define s1 where "s1 = s\<lparr>ck := Some c, rk := Some k, rn := Some (nonce 1)\<rparr>"
  have dl: "decryptLength cr
      (ccpEncrypt cr k (nonce 0) [] [of_nat (length m div 256), of_nat (length m mod 256)]) s
      = (Inr (length m), s1)"
    using decryptLength_eq [OF assms(2,3,4) _ aead]
    by (simp add: use_key_at len_bytes [OF assms(5)] s1_def)
  have s1: "ck s1 = Some c" "rk s1 = Some k" "rn s1 = Some (nonce 1)"
    by (simp_all add: s1_def)
  have dm: "decryptMessage cr (ccpEncrypt cr k (nonce 1) [] m) s1 =
      (Inr m, s\<lparr>ck := Some c, rk := Some k, rn := Some (nonce 2)\<rparr>)"
    using decryptMessage_eq [OF s1 _ aead] by (simp add: use_key_at s1_def)
  show ?thesis
    using dm by (simp add: receive_frame_def len dl)
qed

lemma receive_frame_rejected:
  assumes "rk s = Some k" "rn s = Some n" "ccpDecrypt cr k n [] (take 18 f) = None"
  shows "receive_frame cr f s = (Inl DecryptError, s)"
  using assms by (simp add: receive_frame_def decryptLength_def)


text \<open>
  The two exchanges, call by call: the frames sent and the states left.
\<close>

lemma send_first:
  "encryptMessage toy_crypto [1] (toy_transport 998 998) =
     (Inr (ccpEncrypt toy_crypto (replicate 32 2) (nonce 998) [] [0, 1] @ ccpEncrypt toy_crypto (replicate 32 2) (nonce 999) [] [1]),
      ((toy_transport 998 998)\<lparr>ck := Some (take 32 (hkdf toy_crypto (replicate 32 1) (replicate 32 2))), sk := Some (drop 32 (hkdf toy_crypto (replicate 32 1) (replicate 32 2))), sn := Some (nonce 0)\<rparr>))"
  using encryptMessage_rotating [where cr = toy_crypto and s = "toy_transport 998 998" and m = "[1]"
      and c = "replicate 32 1" and k = "replicate 32 2"]
  by simp

lemma send_second:
  "encryptMessage toy_crypto [2] (toy_peer 998 998) =
     (Inr (ccpEncrypt toy_crypto (replicate 32 3) (nonce 998) [] [0, 1] @ ccpEncrypt toy_crypto (replicate 32 3) (nonce 999) [] [2]),
      ((toy_peer 998 998)\<lparr>ck := Some (take 32 (hkdf toy_crypto (replicate 32 1) (replicate 32 3))), sk := Some (drop 32 (hkdf toy_crypto (replicate 32 1) (replicate 32 3))), sn := Some (nonce 0)\<rparr>))"
  using encryptMessage_rotating [where cr = toy_crypto and s = "toy_peer 998 998" and m = "[2]"
      and c = "replicate 32 1" and k = "replicate 32 3"]
  by simp

lemma read_second_crossed:
  "receive_frame toy_crypto (ccpEncrypt toy_crypto (replicate 32 3) (nonce 998) [] [0, 1] @ ccpEncrypt toy_crypto (replicate 32 3) (nonce 999) [] [2])
      ((toy_transport 998 998)\<lparr>ck := Some (take 32 (hkdf toy_crypto (replicate 32 1) (replicate 32 2))), sk := Some (drop 32 (hkdf toy_crypto (replicate 32 1) (replicate 32 2))), sn := Some (nonce 0)\<rparr>) =
     (Inr [2],
      (((toy_transport 998 998)\<lparr>ck := Some (take 32 (hkdf toy_crypto (replicate 32 1) (replicate 32 2))), sk := Some (drop 32 (hkdf toy_crypto (replicate 32 1) (replicate 32 2))), sn := Some (nonce 0)\<rparr>)\<lparr>ck := Some (take 32 (hkdf toy_crypto (take 32 (hkdf toy_crypto (replicate 32 1) (replicate 32 2))) (replicate 32 3))), rk := Some (drop 32 (hkdf toy_crypto (take 32 (hkdf toy_crypto (replicate 32 1) (replicate 32 2))) (replicate 32 3))), rn := Some (nonce 0)\<rparr>))"
  using receive_frame_rotating [OF toy_aead_ok, where m = "[2]"
      and s = "(toy_transport 998 998)\<lparr>ck := Some (take 32 (hkdf toy_crypto (replicate 32 1) (replicate 32 2))), sk := Some (drop 32 (hkdf toy_crypto (replicate 32 1) (replicate 32 2))), sn := Some (nonce 0)\<rparr>"
      and c = "take 32 (hkdf toy_crypto (replicate 32 1) (replicate 32 2))" and k = "replicate 32 3"]
  by simp

lemma read_first_crossed:
  "receive_frame toy_crypto (ccpEncrypt toy_crypto (replicate 32 2) (nonce 998) [] [0, 1] @ ccpEncrypt toy_crypto (replicate 32 2) (nonce 999) [] [1])
      ((toy_peer 998 998)\<lparr>ck := Some (take 32 (hkdf toy_crypto (replicate 32 1) (replicate 32 3))), sk := Some (drop 32 (hkdf toy_crypto (replicate 32 1) (replicate 32 3))), sn := Some (nonce 0)\<rparr>) =
     (Inr [1],
      (((toy_peer 998 998)\<lparr>ck := Some (take 32 (hkdf toy_crypto (replicate 32 1) (replicate 32 3))), sk := Some (drop 32 (hkdf toy_crypto (replicate 32 1) (replicate 32 3))), sn := Some (nonce 0)\<rparr>)\<lparr>ck := Some (take 32 (hkdf toy_crypto (take 32 (hkdf toy_crypto (replicate 32 1) (replicate 32 3))) (replicate 32 2))), rk := Some (drop 32 (hkdf toy_crypto (take 32 (hkdf toy_crypto (replicate 32 1) (replicate 32 3))) (replicate 32 2))), rn := Some (nonce 0)\<rparr>))"
  using receive_frame_rotating [OF toy_aead_ok, where m = "[1]"
      and s = "(toy_peer 998 998)\<lparr>ck := Some (take 32 (hkdf toy_crypto (replicate 32 1) (replicate 32 3))), sk := Some (drop 32 (hkdf toy_crypto (replicate 32 1) (replicate 32 3))), sn := Some (nonce 0)\<rparr>"
      and c = "take 32 (hkdf toy_crypto (replicate 32 1) (replicate 32 3))" and k = "replicate 32 2"]
  by simp

lemma crossed_eq:
  "crossed =
     ((((toy_transport 998 998)\<lparr>ck := Some (take 32 (hkdf toy_crypto (replicate 32 1) (replicate 32 2))), sk := Some (drop 32 (hkdf toy_crypto (replicate 32 1) (replicate 32 2))), sn := Some (nonce 0)\<rparr>)\<lparr>ck := Some (take 32 (hkdf toy_crypto (take 32 (hkdf toy_crypto (replicate 32 1) (replicate 32 2))) (replicate 32 3))), rk := Some (drop 32 (hkdf toy_crypto (take 32 (hkdf toy_crypto (replicate 32 1) (replicate 32 2))) (replicate 32 3))), rn := Some (nonce 0)\<rparr>),
      (((toy_peer 998 998)\<lparr>ck := Some (take 32 (hkdf toy_crypto (replicate 32 1) (replicate 32 3))), sk := Some (drop 32 (hkdf toy_crypto (replicate 32 1) (replicate 32 3))), sn := Some (nonce 0)\<rparr>)\<lparr>ck := Some (take 32 (hkdf toy_crypto (take 32 (hkdf toy_crypto (replicate 32 1) (replicate 32 3))) (replicate 32 2))), rk := Some (drop 32 (hkdf toy_crypto (take 32 (hkdf toy_crypto (replicate 32 1) (replicate 32 3))) (replicate 32 2))), rn := Some (nonce 0)\<rparr>))"
  by (simp add: crossed_def Let_def frame_of_def send_first send_second
      read_second_crossed read_first_crossed)

lemma read_first_in_turn:
  "receive_frame toy_crypto (ccpEncrypt toy_crypto (replicate 32 2) (nonce 998) [] [0, 1] @ ccpEncrypt toy_crypto (replicate 32 2) (nonce 999) [] [1])
      (toy_peer 998 998) =
     (Inr [1],
      ((toy_peer 998 998)\<lparr>ck := Some (take 32 (hkdf toy_crypto (replicate 32 1) (replicate 32 2))), rk := Some (drop 32 (hkdf toy_crypto (replicate 32 1) (replicate 32 2))), rn := Some (nonce 0)\<rparr>))"
  using receive_frame_rotating [OF toy_aead_ok, where m = "[1]"
      and s = "toy_peer 998 998"
      and c = "replicate 32 1" and k = "replicate 32 2"]
  by simp

lemma send_second_in_turn:
  "encryptMessage toy_crypto [2] ((toy_peer 998 998)\<lparr>ck := Some (take 32 (hkdf toy_crypto (replicate 32 1) (replicate 32 2))), rk := Some (drop 32 (hkdf toy_crypto (replicate 32 1) (replicate 32 2))), rn := Some (nonce 0)\<rparr>) =
     (Inr (ccpEncrypt toy_crypto (replicate 32 3) (nonce 998) [] [0, 1] @ ccpEncrypt toy_crypto (replicate 32 3) (nonce 999) [] [2]),
      (((toy_peer 998 998)\<lparr>ck := Some (take 32 (hkdf toy_crypto (replicate 32 1) (replicate 32 2))), rk := Some (drop 32 (hkdf toy_crypto (replicate 32 1) (replicate 32 2))), rn := Some (nonce 0)\<rparr>)\<lparr>ck := Some (take 32 (hkdf toy_crypto (take 32 (hkdf toy_crypto (replicate 32 1) (replicate 32 2))) (replicate 32 3))), sk := Some (drop 32 (hkdf toy_crypto (take 32 (hkdf toy_crypto (replicate 32 1) (replicate 32 2))) (replicate 32 3))), sn := Some (nonce 0)\<rparr>))"
  using encryptMessage_rotating [where cr = toy_crypto and m = "[2]"
      and s = "(toy_peer 998 998)\<lparr>ck := Some (take 32 (hkdf toy_crypto (replicate 32 1) (replicate 32 2))), rk := Some (drop 32 (hkdf toy_crypto (replicate 32 1) (replicate 32 2))), rn := Some (nonce 0)\<rparr>"
      and c = "take 32 (hkdf toy_crypto (replicate 32 1) (replicate 32 2))" and k = "replicate 32 3"]
  by simp

lemma in_turn_eq:
  "in_turn =
     ((((toy_transport 998 998)\<lparr>ck := Some (take 32 (hkdf toy_crypto (replicate 32 1) (replicate 32 2))), sk := Some (drop 32 (hkdf toy_crypto (replicate 32 1) (replicate 32 2))), sn := Some (nonce 0)\<rparr>)\<lparr>ck := Some (take 32 (hkdf toy_crypto (take 32 (hkdf toy_crypto (replicate 32 1) (replicate 32 2))) (replicate 32 3))), rk := Some (drop 32 (hkdf toy_crypto (take 32 (hkdf toy_crypto (replicate 32 1) (replicate 32 2))) (replicate 32 3))), rn := Some (nonce 0)\<rparr>),
      (((toy_peer 998 998)\<lparr>ck := Some (take 32 (hkdf toy_crypto (replicate 32 1) (replicate 32 2))), rk := Some (drop 32 (hkdf toy_crypto (replicate 32 1) (replicate 32 2))), rn := Some (nonce 0)\<rparr>)\<lparr>ck := Some (take 32 (hkdf toy_crypto (take 32 (hkdf toy_crypto (replicate 32 1) (replicate 32 2))) (replicate 32 3))), sk := Some (drop 32 (hkdf toy_crypto (take 32 (hkdf toy_crypto (replicate 32 1) (replicate 32 2))) (replicate 32 3))), sn := Some (nonce 0)\<rparr>))"
  by (simp add: in_turn_def Let_def frame_of_def send_first read_first_in_turn
      send_second_in_turn read_second_crossed)


text \<open>
  After the crossing frames the sending key of either peer is not the receiving key of the
  other, and the length part of a frame under the one is rejected under the other.
\<close>

lemma crossed_keys_differ:
  "drop 32 (hkdf toy_crypto (replicate 32 1) (replicate 32 2))
     \<noteq> drop 32 (hkdf toy_crypto (take 32 (hkdf toy_crypto (replicate 32 1) (replicate 32 3))) (replicate 32 2))"
  "drop 32 (hkdf toy_crypto (take 32 (hkdf toy_crypto (replicate 32 1) (replicate 32 2))) (replicate 32 3))
     \<noteq> drop 32 (hkdf toy_crypto (replicate 32 1) (replicate 32 3))"
  by code_simp+

lemma crossed_keys_reject:
  "ccpDecrypt toy_crypto (drop 32 (hkdf toy_crypto (take 32 (hkdf toy_crypto (replicate 32 1) (replicate 32 3))) (replicate 32 2))) (nonce 0) []
     (ccpEncrypt toy_crypto (drop 32 (hkdf toy_crypto (replicate 32 1) (replicate 32 2))) (nonce 0) [] [0, 1]) = None"
  "ccpDecrypt toy_crypto (drop 32 (hkdf toy_crypto (take 32 (hkdf toy_crypto (replicate 32 1) (replicate 32 2))) (replicate 32 3))) (nonce 0) []
     (ccpEncrypt toy_crypto (drop 32 (hkdf toy_crypto (replicate 32 1) (replicate 32 3))) (nonce 0) [] [0, 1]) = None"
  by code_simp+

lemma next_frame_sent:
  assumes "ck s = Some c" "sk s = Some k" "sn s = Some (nonce 0)"
  shows "frame_of (encryptMessage cr [3] s) =
    ccpEncrypt cr k (nonce 0) [] [0, 1] @ ccpEncrypt cr k (nonce 1) [] [3]"
  using encryptMessage_fresh_key [OF assms, where m = "[3]" and cr = cr]
  by (simp add: frame_of_def)

lemma next_frame_read:
  assumes "aead_ok cr" "ck s = Some c" "rk s = Some k" "rn s = Some (nonce 0)"
  shows "fst (receive_frame cr
      (ccpEncrypt cr k (nonce 0) [] [0, 1] @ ccpEncrypt cr k (nonce 1) [] [3]) s) = Inr [3]"
  using receive_frame_fresh_key [OF assms, where m = "[3]"] by simp

lemma next_frame_rejected:
  assumes "aead_ok cr" "rk s = Some k" "rn s = Some (nonce 0)"
    and "ccpDecrypt cr k (nonce 0) [] (ccpEncrypt cr k' (nonce 0) [] [0, 1]) = None"
  shows "fst (receive_frame cr
      (ccpEncrypt cr k' (nonce 0) [] [0, 1] @ ccpEncrypt cr k' (nonce 1) [] [3]) s)
    = Inl DecryptError"
proof -
  have "length (ccpEncrypt cr k' (nonce 0) [] [0, 1]) = 18"
    using assms(1) by (simp add: aead_ok_def)
  then have "take 18 (ccpEncrypt cr k' (nonce 0) [] [0, 1] @ ccpEncrypt cr k' (nonce 1) [] [3])
      = ccpEncrypt cr k' (nonce 0) [] [0, 1]"
    by simp
  then show ?thesis
    using receive_frame_rejected [OF assms(2,3), where cr = cr] assms(4) by simp
qed

text \<open>
  C9 (the code departs from the claim). The claim has the rotations of the two directions
  independent, which is what keeps the \<open>sk\<close> of one peer equal to the \<open>rk\<close> of the other. In
  the code they are not. When the two frames cross, both are read, yet afterwards neither
  peer's \<open>sk\<close> is the other's \<open>rk\<close>, and the next frame either way is rejected: each peer
  rotated its sending key first and its receiving key second, on the one \<open>ck\<close>, while its
  peer rotated the matching keys in the other order. The same two frames sent in turn
  leave the peers in step.
\<close>

theorem crossing_frames_desynchronise:
  "fst (receive_frame toy_crypto
          (frame_of (encryptMessage toy_crypto [2] (toy_peer 998 998)))
          (snd (encryptMessage toy_crypto [1] (toy_transport 998 998)))) = Inr [2] \<and>
   fst (receive_frame toy_crypto
          (frame_of (encryptMessage toy_crypto [1] (toy_transport 998 998)))
          (snd (encryptMessage toy_crypto [2] (toy_peer 998 998)))) = Inr [1] \<and>
   sk (fst crossed) \<noteq> rk (snd crossed) \<and>
   rk (fst crossed) \<noteq> sk (snd crossed) \<and>
   fst (receive_frame toy_crypto (frame_of (encryptMessage toy_crypto [3] (fst crossed)))
          (snd crossed)) = Inl DecryptError \<and>
   fst (receive_frame toy_crypto (frame_of (encryptMessage toy_crypto [3] (snd crossed)))
          (fst crossed)) = Inl DecryptError \<and>
   sk (fst in_turn) = rk (snd in_turn) \<and>
   rk (fst in_turn) = sk (snd in_turn) \<and>
   fst (receive_frame toy_crypto (frame_of (encryptMessage toy_crypto [3] (fst in_turn)))
          (snd in_turn)) = Inr [3] \<and>
   fst (receive_frame toy_crypto (frame_of (encryptMessage toy_crypto [3] (snd in_turn)))
          (fst in_turn)) = Inr [3]"
proof (intro conjI)
  show "fst (receive_frame toy_crypto
          (frame_of (encryptMessage toy_crypto [2] (toy_peer 998 998)))
          (snd (encryptMessage toy_crypto [1] (toy_transport 998 998)))) = Inr [2]"
    by (simp add: send_first send_second frame_of_def read_second_crossed)
  show "fst (receive_frame toy_crypto
          (frame_of (encryptMessage toy_crypto [1] (toy_transport 998 998)))
          (snd (encryptMessage toy_crypto [2] (toy_peer 998 998)))) = Inr [1]"
    by (simp add: send_first send_second frame_of_def read_first_crossed)
  show "sk (fst crossed) \<noteq> rk (snd crossed)"
    using crossed_keys_differ(1) by (simp add: crossed_eq)
  show "rk (fst crossed) \<noteq> sk (snd crossed)"
    using crossed_keys_differ(2) by (simp add: crossed_eq)
  have a: "frame_of (encryptMessage toy_crypto [3] (fst crossed)) =
      ccpEncrypt toy_crypto (drop 32 (hkdf toy_crypto (replicate 32 1) (replicate 32 2))) (nonce 0) [] [0, 1]
      @ ccpEncrypt toy_crypto (drop 32 (hkdf toy_crypto (replicate 32 1) (replicate 32 2))) (nonce 1) [] [3]"
    by (rule next_frame_sent) (simp_all add: crossed_eq)
  have b: "frame_of (encryptMessage toy_crypto [3] (snd crossed)) =
      ccpEncrypt toy_crypto (drop 32 (hkdf toy_crypto (replicate 32 1) (replicate 32 3))) (nonce 0) [] [0, 1]
      @ ccpEncrypt toy_crypto (drop 32 (hkdf toy_crypto (replicate 32 1) (replicate 32 3))) (nonce 1) [] [3]"
    by (rule next_frame_sent) (simp_all add: crossed_eq)
  show "fst (receive_frame toy_crypto (frame_of (encryptMessage toy_crypto [3] (fst crossed)))
          (snd crossed)) = Inl DecryptError"
    unfolding a
    by (rule next_frame_rejected [OF toy_aead_ok _ _ crossed_keys_reject(1)])
      (simp_all add: crossed_eq)
  show "fst (receive_frame toy_crypto (frame_of (encryptMessage toy_crypto [3] (snd crossed)))
          (fst crossed)) = Inl DecryptError"
    unfolding b
    by (rule next_frame_rejected [OF toy_aead_ok _ _ crossed_keys_reject(2)])
      (simp_all add: crossed_eq)
  show "sk (fst in_turn) = rk (snd in_turn)"
    by (simp add: in_turn_eq)
  show "rk (fst in_turn) = sk (snd in_turn)"
    by (simp add: in_turn_eq)
  have c: "frame_of (encryptMessage toy_crypto [3] (fst in_turn)) =
      ccpEncrypt toy_crypto (drop 32 (hkdf toy_crypto (replicate 32 1) (replicate 32 2))) (nonce 0) [] [0, 1]
      @ ccpEncrypt toy_crypto (drop 32 (hkdf toy_crypto (replicate 32 1) (replicate 32 2))) (nonce 1) [] [3]"
    by (rule next_frame_sent) (simp_all add: in_turn_eq)
  have d: "frame_of (encryptMessage toy_crypto [3] (snd in_turn)) =
      ccpEncrypt toy_crypto (drop 32 (hkdf toy_crypto (take 32 (hkdf toy_crypto (replicate 32 1) (replicate 32 2))) (replicate 32 3))) (nonce 0) [] [0, 1]
      @ ccpEncrypt toy_crypto (drop 32 (hkdf toy_crypto (take 32 (hkdf toy_crypto (replicate 32 1) (replicate 32 2))) (replicate 32 3))) (nonce 1) [] [3]"
    by (rule next_frame_sent) (simp_all add: in_turn_eq)
  show "fst (receive_frame toy_crypto (frame_of (encryptMessage toy_crypto [3] (fst in_turn)))
          (snd in_turn)) = Inr [3]"
    unfolding c by (rule next_frame_read [OF toy_aead_ok]) (simp_all add: in_turn_eq)
  show "fst (receive_frame toy_crypto (frame_of (encryptMessage toy_crypto [3] (snd in_turn)))
          (fst in_turn)) = Inr [3]"
    unfolding d by (rule next_frame_read [OF toy_aead_ok]) (simp_all add: in_turn_eq)
qed

end
